theory Spec2Isabelle
  imports Complex_Main
begin

section \<open>Errors and numeric values\<close>

text \<open>
  The exceptions the feature functions can raise.  \<open>IndexError\<close>, \<open>ValueError\<close> and
  \<open>NameError\<close> are raised by the Python and numpy code of \<open>features.py\<close> itself;
  \<open>LinAlgError\<close>, \<open>QhullError\<close> and \<open>FitError\<close> are raised inside the external
  collaborators (\<open>np.linalg.eig\<close>, \<open>scipy.spatial.ConvexHull\<close>,
  \<open>scipy.optimize.curve_fit\<close>).
\<close>

datatype error =
    IndexError
  | ValueError
  | NameError string
  | LinAlgError
  | QhullError
  | FitError

text \<open>
  A numpy \<open>float64\<close>.  Rounding, overflow and the sign of zero are not modelled (finite
  values are real numbers); what is modelled is that numpy arithmetic never raises: a
  division by zero gives an infinity or not-a-number, which then flows through the rest
  of the computation.  What depends on rounding (a bound that a quotient attains up to
  the last bit, the order in which the terms of a sum are added) is outside the model.
\<close>

datatype npfloat = Fin real | PInf | NInf | NaN

fun np_neg :: "npfloat \<Rightarrow> npfloat" where
  "np_neg (Fin a) = Fin (- a)"
| "np_neg PInf = NInf"
| "np_neg NInf = PInf"
| "np_neg NaN = NaN"

fun np_add :: "npfloat \<Rightarrow> npfloat \<Rightarrow> npfloat" where
  "np_add (Fin a) (Fin b) = Fin (a + b)"
| "np_add NaN _ = NaN"
| "np_add _ NaN = NaN"
| "np_add PInf NInf = NaN"
| "np_add NInf PInf = NaN"
| "np_add PInf _ = PInf"
| "np_add _ PInf = PInf"
| "np_add NInf _ = NInf"
| "np_add _ NInf = NInf"

definition np_sub :: "npfloat \<Rightarrow> npfloat \<Rightarrow> npfloat" where
  "np_sub a b = np_add a (np_neg b)"

text \<open>An infinity scaled by a finite factor: not-a-number for zero, else by sign.\<close>

definition scale_inf :: "real \<Rightarrow> npfloat \<Rightarrow> npfloat" where
  "scale_inf r v = (if r = 0 then NaN else if 0 < r then v else np_neg v)"

fun np_mul :: "npfloat \<Rightarrow> npfloat \<Rightarrow> npfloat" where
  "np_mul (Fin a) (Fin b) = Fin (a * b)"
| "np_mul NaN _ = NaN"
| "np_mul _ NaN = NaN"
| "np_mul (Fin a) v = scale_inf a v"
| "np_mul v (Fin b) = scale_inf b v"
| "np_mul PInf v = v"
| "np_mul NInf v = np_neg v"

fun np_div :: "npfloat \<Rightarrow> npfloat \<Rightarrow> npfloat" where
  "np_div (Fin a) (Fin b) =
     (if b \<noteq> 0 then Fin (a / b)
      else if a = 0 then NaN
      else if 0 < a then PInf else NInf)"
| "np_div NaN _ = NaN"
| "np_div _ NaN = NaN"
| "np_div (Fin a) _ = Fin 0"
| "np_div v (Fin b) = (if 0 \<le> b then v else np_neg v)"
| "np_div _ _ = NaN"

fun np_sqrt :: "npfloat \<Rightarrow> npfloat" where
  "np_sqrt (Fin a) = (if 0 \<le> a then Fin (sqrt a) else NaN)"
| "np_sqrt PInf = PInf"
| "np_sqrt NInf = NaN"
| "np_sqrt NaN = NaN"


fun np_log :: "npfloat \<Rightarrow> npfloat" where
  "np_log (Fin a) = (if 0 < a then Fin (ln a) else if a = 0 then NInf else NaN)"
| "np_log PInf = PInf"
| "np_log NInf = NaN"
| "np_log NaN = NaN"

text \<open>\<open>v**2\<close> and \<open>v**4\<close>.\<close>

definition np_sq :: "npfloat \<Rightarrow> npfloat" where
  "np_sq v = np_mul v v"

definition np_pow4 :: "npfloat \<Rightarrow> npfloat" where
  "np_pow4 v = np_sq (np_sq v)"

text \<open>Comparison: every comparison with not-a-number is false.\<close>

fun np_less :: "npfloat \<Rightarrow> npfloat \<Rightarrow> bool" where
  "np_less (Fin a) (Fin b) = (a < b)"
| "np_less NaN _ = False"
| "np_less _ NaN = False"
| "np_less _ NInf = False"
| "np_less NInf _ = True"
| "np_less PInf _ = False"
| "np_less _ PInf = True"

definition np_greater :: "npfloat \<Rightarrow> npfloat \<Rightarrow> bool" where
  "np_greater a b = np_less b a"

definition is_fin :: "npfloat \<Rightarrow> bool" where
  "is_fin v = (case v of Fin _ \<Rightarrow> True | _ \<Rightarrow> False)"

fun the_fin :: "npfloat \<Rightarrow> real" where
  "the_fin (Fin a) = a"
| "the_fin _ = 0"

section \<open>Arrays\<close>

text \<open>
  A one-dimensional array is a list.  \<open>np.linspace(1, n, n)\<close> is the array
  \<open>1.0, 2.0, ..., n\<close> (empty for \<open>n = 0\<close>).
\<close>

definition linspace1 :: "nat \<Rightarrow> npfloat list" where
  "linspace1 n = map (\<lambda>k. Fin (real k)) [1..<Suc n]"

text \<open>
  \<open>X, Y = np.meshgrid(a, b)\<close>: both of shape \<open>(len b, len a)\<close>, with
  \<open>X[r][c] = a[c]\<close> and \<open>Y[r][c] = b[r]\<close>.
\<close>

definition meshgrid :: "'a list \<Rightarrow> 'a list \<Rightarrow> 'a list list \<times> 'a list list" where
  "meshgrid a b = (map (\<lambda>_. a) b, map (\<lambda>v. map (\<lambda>_. v) a) b)"

text \<open>Element-wise operations on two-dimensional arrays of one shape.\<close>

definition ew2 :: "('a \<Rightarrow> 'b \<Rightarrow> 'c) \<Rightarrow> 'a list list \<Rightarrow> 'b list list \<Rightarrow> 'c list list" where
  "ew2 f A B = map2 (map2 f) A B"

text \<open>\<open>A[mask] = v\<close> for a boolean mask of the shape of \<open>A\<close>.\<close>

definition mask_assign2 :: "'a list list \<Rightarrow> bool list list \<Rightarrow> 'a \<Rightarrow> 'a list list" where
  "mask_assign2 A sel v = ew2 (\<lambda>a m. if m then v else a) A sel"

section \<open>MSD consistency of one trajectory\<close>

text \<open>
  The values a local name of \<open>msdRatio\<close> can be bound to, and the names bound at module
  level of \<open>features.py\<close> (its imports and its functions).
\<close>

datatype pyval =
    PInt nat
  | PArr1 "npfloat list"
  | PArr2 "npfloat list list"
  | PObject string

definition module_globals :: "string list" where
  "module_globals =
     [''np'', ''curve_fit'', ''rotate'', ''ConvexHull'', ''anomalous'', ''anomModels'',
      ''anomModel'', ''anomModelN'', ''anomModelsN'', ''asym'', ''asyms'', ''minBoundRect'',
      ''aspectRatio'', ''aspectRatios'', ''bound'', ''bounds'', ''efficiency'',
      ''efficiencies'', ''straight'', ''straights'', ''fractDim'', ''fractDims'',
      ''msdRatio'', ''msdRatios'']"

text \<open>
  Reading a name inside a function: the local binding, else the module-level one, else
  \<open>NameError\<close> (no builtin is called \<open>MRatio\<close>).
\<close>

definition read_name :: "(string \<times> pyval) list \<Rightarrow> string \<Rightarrow> error + pyval" where
  "read_name locals name =
     (case map_of locals name of
        Some v \<Rightarrow> Inr v
      | None \<Rightarrow> if name \<in> set module_globals then Inr (PObject name)
                else Inl (NameError name))"

text \<open>
  \<open>msdRatio(M)\<close>: the ratio matrix is bound to \<open>Mratio\<close>; the \<open>return\<close> statement reads
  \<open>MRatio\<close>.
\<close>

definition msdRatio_matrix :: "npfloat list \<Rightarrow> npfloat list list" where
  "msdRatio_matrix M =
     (let n = length M;
          ns = linspace1 n;
          (n2y, n2x) = meshgrid ns ns;
          (M2y, M2x) = meshgrid M M;
          Mratio = ew2 np_sub (ew2 np_div M2x M2y) (ew2 np_div n2x n2y)
      in mask_assign2 Mratio (ew2 np_greater n2x n2y) (Fin 0))"

definition msdRatio :: "npfloat list \<Rightarrow> error + pyval" where
  "msdRatio M =
     (let n = length M;
          ns = linspace1 n;
          (n2y, n2x) = meshgrid ns ns;
          (M2y, M2x) = meshgrid M M;
          Mratio = msdRatio_matrix M;
          locals = [(''M'', PArr1 M), (''n'', PInt n), (''ns'', PArr1 ns),
                    (''n2y'', PArr2 n2y), (''n2x'', PArr2 n2x),
                    (''M2y'', PArr2 M2y), (''M2x'', PArr2 M2x),
                    (''Mratio'', PArr2 Mratio)]
      in read_name locals ''MRatio'')"

section \<open>MSD consistency of a batch of trajectories\<close>

text \<open>
  A two-dimensional input array (rows are frames or lags, columns are trajectories) is
  its column count and its rows; its shape is \<open>(length (rows A), ncols A)\<close>.  numpy arrays
  are rectangular: every row has \<open>ncols A\<close> entries.
\<close>

record arr2 =
  ncols :: nat
  rows :: "npfloat list list"

definition wf_arr2 :: "arr2 \<Rightarrow> bool" where
  "wf_arr2 A = list_all (\<lambda>r. length r = ncols A) (rows A)"

definition nrows :: "arr2 \<Rightarrow> nat" where
  "nrows A = length (rows A)"

text \<open>\<open>A[:, i]\<close> for \<open>i\<close> in \<open>range(ncols A)\<close>.\<close>

definition col :: "arr2 \<Rightarrow> nat \<Rightarrow> npfloat list" where
  "col A i = map (\<lambda>r. r ! i) (rows A)"

text \<open>
  Three-dimensional arrays of shape \<open>(n, n, N)\<close> are nested lists.
  \<open>np.tile(A.reshape((n,n,1)), (1,1,N))\<close> repeats every entry of \<open>A\<close> along the new
  last axis; \<open>A[:,:,i] = P\<close> stores the matrix \<open>P\<close> in plane \<open>i\<close>.
\<close>

definition tile3 :: "nat \<Rightarrow> 'a list list \<Rightarrow> 'a list list list" where
  "tile3 N A = map (map (replicate N)) A"

definition zeros3 :: "nat \<Rightarrow> nat \<Rightarrow> npfloat list list list" where
  "zeros3 n N = replicate n (replicate n (replicate N (Fin 0)))"

definition set_plane :: "'a list list list \<Rightarrow> nat \<Rightarrow> 'a list list \<Rightarrow> 'a list list list" where
  "set_plane A i P = map2 (map2 (\<lambda>cell p. cell[i := p])) A P"

definition ew3 ::
  "('a \<Rightarrow> 'b \<Rightarrow> 'c) \<Rightarrow> 'a list list list \<Rightarrow> 'b list list list \<Rightarrow> 'c list list list" where
  "ew3 f A B = map2 (map2 (map2 f)) A B"

definition mask_assign3 ::
  "'a list list list \<Rightarrow> bool list list list \<Rightarrow> 'a \<Rightarrow> 'a list list list" where
  "mask_assign3 A sel v = ew3 (\<lambda>a m. if m then v else a) A sel"

text \<open>The loop of \<open>msdRatios\<close> that fills \<open>M2y\<close> and \<open>M2x\<close> plane by plane.\<close>

definition msd_planes ::
  "arr2 \<Rightarrow> nat list \<Rightarrow> npfloat list list list \<times> npfloat list list list
     \<Rightarrow> npfloat list list list \<times> npfloat list list list" where
  "msd_planes Ms is acc =
     fold (\<lambda>i (M2y, M2x).
             let (gy, gx) = meshgrid (col Ms i) (col Ms i)
             in (set_plane M2y i gy, set_plane M2x i gx)) is acc"

definition msdRatios :: "arr2 \<Rightarrow> npfloat list list list" where
  "msdRatios Ms =
     (let n = nrows Ms; N = ncols Ms;
          ns = linspace1 n;
          (n2y, n2x) = meshgrid ns ns;
          (n2y, n2x) = (tile3 N n2y, tile3 N n2x);
          (M2y, M2x) = msd_planes Ms [0..<N] (zeros3 n N, zeros3 n N);
          Mratio = ew3 np_sub (ew3 np_div M2x M2y) (ew3 np_div n2x n2y)
      in mask_assign3 Mratio (ew3 np_greater n2x n2y) (Fin 0))"

section \<open>Python ranges, slices and indexed stores\<close>

text \<open>
  \<open>range(start, stop, step)\<close> raises \<open>ValueError\<close> for a zero step; otherwise it is the
  arithmetic progression from \<open>start\<close> that stays before \<open>stop\<close>.
\<close>

definition py_range :: "int \<Rightarrow> int \<Rightarrow> int \<Rightarrow> error + int list" where
  "py_range start stop step =
     (if step = 0 then Inl ValueError
      else if 0 < step
        then Inr (map (\<lambda>k. start + int k * step)
                    [0..<nat ((stop - start + step - 1) div step)])
        else Inr (map (\<lambda>k. start + int k * step)
                    [0..<nat ((start - stop - step - 1) div (- step))]))"

text \<open>\<open>xs[:i]\<close>: a negative bound counts from the end, and the slice never raises.\<close>

definition py_take :: "int \<Rightarrow> 'a list \<Rightarrow> 'a list" where
  "py_take i xs = (if 0 \<le> i then take (nat i) xs else take (nat (int (length xs) + i)) xs)"

text \<open>
  \<open>xs[i] = v\<close> on a one-dimensional array and \<open>A[i, j] = v\<close> on a two-dimensional one, for
  a Python integer \<open>i\<close> and a column \<open>j\<close> that is in range: a negative index counts from
  the end, an index outside the array raises \<open>IndexError\<close>.
\<close>

definition py_index :: "nat \<Rightarrow> int \<Rightarrow> error + nat" where
  "py_index n i =
     (let j = (if i < 0 then int n + i else i)
      in if 0 \<le> j \<and> j < int n then Inr (nat j) else Inl IndexError)"

definition setitem1 :: "'a list \<Rightarrow> int \<Rightarrow> 'a \<Rightarrow> error + 'a list" where
  "setitem1 xs i v = (case py_index (length xs) i of Inl e \<Rightarrow> Inl e | Inr k \<Rightarrow> Inr (xs[k := v]))"

definition setitem2 :: "'a list list \<Rightarrow> int \<Rightarrow> nat \<Rightarrow> 'a \<Rightarrow> error + 'a list list" where
  "setitem2 A i j v =
     (case py_index (length A) i of Inl e \<Rightarrow> Inl e | Inr k \<Rightarrow> Inr (A[k := (A ! k)[j := v]]))"

section \<open>The anomalous-diffusion fits\<close>

text \<open>
  \<open>b ** e\<close> on floats (the special cases of the C library's \<open>pow\<close>, the sign of zero
  apart).
\<close>

definition np_power :: "npfloat \<Rightarrow> npfloat \<Rightarrow> npfloat" where
  "np_power b e =
     (if e = Fin 0 \<or> b = Fin 1 then Fin 1
      else case (b, e) of
        (NaN, _) \<Rightarrow> NaN
      | (_, NaN) \<Rightarrow> NaN
      | (Fin x, Fin y) \<Rightarrow>
          if 0 < x then Fin (x powr y)
          else if x = 0 then (if 0 < y then Fin 0 else PInf)
          else if y = of_int \<lfloor>y\<rfloor>
            then Fin ((if even \<lfloor>y\<rfloor> then 1 else - 1) * (\<bar>x\<bar> powr y))
            else NaN
      | (Fin x, PInf) \<Rightarrow> if \<bar>x\<bar> < 1 then Fin 0 else if \<bar>x\<bar> = 1 then Fin 1 else PInf
      | (Fin x, NInf) \<Rightarrow> if \<bar>x\<bar> < 1 then PInf else if \<bar>x\<bar> = 1 then Fin 1 else Fin 0
      | (PInf, Fin y) \<Rightarrow> if 0 < y then PInf else Fin 0
      | (PInf, PInf) \<Rightarrow> PInf
      | (PInf, NInf) \<Rightarrow> Fin 0
      | (NInf, Fin y) \<Rightarrow>
          if 0 < y then (if y = of_int \<lfloor>y\<rfloor> \<and> odd \<lfloor>y\<rfloor> then NInf else PInf) else Fin 0
      | (NInf, PInf) \<Rightarrow> PInf
      | (NInf, NInf) \<Rightarrow> Fin 0)"

text \<open>The anomalous diffusion model \<open>4*D*(x*dt)**alpha\<close>.\<close>

definition anomalous :: "npfloat \<Rightarrow> npfloat \<Rightarrow> npfloat \<Rightarrow> npfloat \<Rightarrow> npfloat" where
  "anomalous x D alpha dt = np_mul (np_mul (Fin 4) D) (np_power (np_mul x dt) alpha)"

text \<open>
  \<open>scipy.optimize.curve_fit(f, xdata, ydata, p0)\<close> is an external collaborator and a
  parameter of the model: from the model function, the data and the initial guess it
  either raises or returns the two fitted parameters \<open>ps[0]\<close>, \<open>ps[1]\<close>.
\<close>

type_synonym curve_fit =
  "(npfloat \<Rightarrow> npfloat \<Rightarrow> npfloat \<Rightarrow> npfloat) \<Rightarrow> npfloat list \<Rightarrow> npfloat list
     \<Rightarrow> npfloat \<times> npfloat \<Rightarrow> error + npfloat \<times> npfloat"

text \<open>The local function \<open>anom\<close> every fit passes to \<open>curve_fit\<close>, and the guess \<open>p0\<close>.\<close>

definition anom :: "npfloat \<Rightarrow> npfloat \<Rightarrow> npfloat \<Rightarrow> npfloat \<Rightarrow> npfloat" where
  "anom dt x D alpha = anomalous x D alpha dt"

definition p0 :: "npfloat \<times> npfloat" where
  "p0 = (Fin 6, Fin 1)"

text \<open>
  \<open>anomModels(MSD, dt, skips)\<close>: the loop over \<open>range(10, steps-1, skips)\<close>, then the
  function.  A fit that raises ends the call.
\<close>

fun anomModels_loop ::
  "curve_fit \<Rightarrow> npfloat \<Rightarrow> npfloat list \<Rightarrow> npfloat list \<Rightarrow> int list
     \<Rightarrow> npfloat list \<times> npfloat list \<Rightarrow> error + npfloat list \<times> npfloat list" where
  "anomModels_loop cf dt N MSD [] (Ds, alphas) = Inr (Ds, alphas)"
| "anomModels_loop cf dt N MSD (i # is) (Ds, alphas) =
     (case cf (anom dt) (py_take i N) (py_take i MSD) p0 of
        Inl e \<Rightarrow> Inl e
      | Inr ps \<Rightarrow>
          (case setitem1 Ds i (fst ps) of
             Inl e \<Rightarrow> Inl e
           | Inr Ds' \<Rightarrow>
               (case setitem1 alphas i (snd ps) of
                  Inl e \<Rightarrow> Inl e
                | Inr alphas' \<Rightarrow> anomModels_loop cf dt N MSD is (Ds', alphas'))))"

definition anomModels ::
  "curve_fit \<Rightarrow> npfloat list \<Rightarrow> npfloat \<Rightarrow> int \<Rightarrow> error + npfloat list \<times> npfloat list" where
  "anomModels cf MSD dt skips =
     (let steps = length MSD + 1;
          N = linspace1 (steps - 1);
          alphas = replicate (steps - 1) (Fin 0);
          Ds = replicate (steps - 1) (Fin 0)
      in case py_range 10 (int steps - 1) skips of
           Inl e \<Rightarrow> Inl e
         | Inr is \<Rightarrow> anomModels_loop cf dt N MSD is (Ds, alphas))"


text \<open>\<open>anomModelN(MSD, dt, frame)\<close>: the loop over the columns \<open>range(N)\<close>.\<close>

fun anomModelN_loop ::
  "curve_fit \<Rightarrow> npfloat \<Rightarrow> int \<Rightarrow> npfloat list \<Rightarrow> arr2 \<Rightarrow> nat list
     \<Rightarrow> npfloat list \<times> npfloat list \<Rightarrow> error + npfloat list \<times> npfloat list" where
  "anomModelN_loop cf dt frame n MSD [] (Ds, alphas) = Inr (Ds, alphas)"
| "anomModelN_loop cf dt frame n MSD (i # is) (Ds, alphas) =
     (case cf (anom dt) (py_take frame n) (py_take frame (col MSD i)) p0 of
        Inl e \<Rightarrow> Inl e
      | Inr ps \<Rightarrow>
          anomModelN_loop cf dt frame n MSD is (Ds[i := fst ps], alphas[i := snd ps]))"

definition anomModelN ::
  "curve_fit \<Rightarrow> arr2 \<Rightarrow> npfloat \<Rightarrow> int \<Rightarrow> error + npfloat list \<times> npfloat list" where
  "anomModelN cf MSD dt frame =
     (let steps = nrows MSD; N = ncols MSD;
          n = linspace1 steps;
          Ds = replicate N (Fin 0);
          alphas = replicate N (Fin 0)
      in anomModelN_loop cf dt frame n MSD [0..<N] (Ds, alphas))"

text \<open>
  \<open>anomModelsN(MSD, dt, skips)\<close>: for every column the loop over
  \<open>range(10, steps, skips)\<close>, which is evaluated anew for each column.
\<close>

fun anomModelsN_frames ::
  "curve_fit \<Rightarrow> npfloat \<Rightarrow> npfloat list \<Rightarrow> arr2 \<Rightarrow> nat \<Rightarrow> int list
     \<Rightarrow> npfloat list list \<times> npfloat list list
     \<Rightarrow> error + npfloat list list \<times> npfloat list list" where
  "anomModelsN_frames cf dt n MSD i [] (Ds, alphas) = Inr (Ds, alphas)"
| "anomModelsN_frames cf dt n MSD i (frame # fs) (Ds, alphas) =
     (case cf (anom dt) (py_take frame n) (py_take frame (col MSD i)) p0 of
        Inl e \<Rightarrow> Inl e
      | Inr ps \<Rightarrow>
          (case setitem2 Ds frame i (fst ps) of
             Inl e \<Rightarrow> Inl e
           | Inr Ds' \<Rightarrow>
               (case setitem2 alphas frame i (snd ps) of
                  Inl e \<Rightarrow> Inl e
                | Inr alphas' \<Rightarrow> anomModelsN_frames cf dt n MSD i fs (Ds', alphas'))))"

fun anomModelsN_loop ::
  "curve_fit \<Rightarrow> npfloat \<Rightarrow> int \<Rightarrow> npfloat list \<Rightarrow> arr2 \<Rightarrow> nat list
     \<Rightarrow> npfloat list list \<times> npfloat list list
     \<Rightarrow> error + npfloat list list \<times> npfloat list list" where
  "anomModelsN_loop cf dt skips n MSD [] (Ds, alphas) = Inr (Ds, alphas)"
| "anomModelsN_loop cf dt skips n MSD (i # is) (Ds, alphas) =
     (case py_range 10 (int (nrows MSD)) skips of
        Inl e \<Rightarrow> Inl e
      | Inr fs \<Rightarrow>
          (case anomModelsN_frames cf dt n MSD i fs (Ds, alphas) of
             Inl e \<Rightarrow> Inl e
           | Inr acc \<Rightarrow> anomModelsN_loop cf dt skips n MSD is acc))"

definition anomModelsN ::
  "curve_fit \<Rightarrow> arr2 \<Rightarrow> npfloat \<Rightarrow> int \<Rightarrow> error + npfloat list list \<times> npfloat list list" where
  "anomModelsN cf MSD dt skips =
     (let steps = nrows MSD; N = ncols MSD;
          n = linspace1 steps;
          Ds = replicate steps (replicate N (Fin 0));
          alphas = replicate steps (replicate N (Fin 0))
      in anomModelsN_loop cf dt skips n MSD [0..<N] (Ds, alphas))"

text \<open>Shapes of nested lists, and the MSD of trajectory \<open>t\<close> at the 1-based lag \<open>i\<close>.\<close>

definition shape3 :: "'a list list list \<Rightarrow> nat \<Rightarrow> nat \<Rightarrow> bool" where
  "shape3 A n N = (length A = n \<and> (\<forall>r<n. length (A ! r) = n \<and> (\<forall>c<n. length (A ! r ! c) = N)))"

definition shape2 :: "'a list list \<Rightarrow> nat \<Rightarrow> bool" where
  "shape2 P n = (length P = n \<and> (\<forall>r<n. length (P ! r) = n))"

definition msd_at :: "arr2 \<Rightarrow> nat \<Rightarrow> nat \<Rightarrow> real" where
  "msd_at Ms i t = the_fin (rows Ms ! (i - 1) ! t)"

definition finite_positive :: "arr2 \<Rightarrow> bool" where
  "finite_positive A = list_all (list_all (\<lambda>v. case v of Fin a \<Rightarrow> 0 < a | _ \<Rightarrow> False)) (rows A)"

text \<open>
  The fit of the first \<open>i\<close> points of a profile, the window lengths the loop of
  \<open>anomModels\<close> visits, and a stand-in for the solver used in examples: it refuses
  data with a non-finite value (as \<open>curve_fit\<close> does) and otherwise reports the number of
  points it was given as \<open>D\<close> and the guessed \<open>alpha\<close>.
\<close>

definition fit_window :: "curve_fit \<Rightarrow> npfloat \<Rightarrow> npfloat list \<Rightarrow> nat \<Rightarrow> error + npfloat \<times> npfloat" where
  "fit_window cf dt MSD i = cf (anom dt) (take i (linspace1 (length MSD))) (take i MSD) p0"

definition window_fitted :: "nat \<Rightarrow> int \<Rightarrow> nat \<Rightarrow> bool" where
  "window_fitted K skips i = (10 \<le> i \<and> i < K \<and> (int i - 10) mod skips = 0)"

definition fit_checked :: curve_fit where
  "fit_checked f xdata ydata guess =
     (if list_all is_fin ydata then Inr (Fin (real (length xdata)), snd guess)
      else Inl ValueError)"

text \<open>
  \<open>np.max\<close> and \<open>np.min\<close> of a one-dimensional array: not-a-number wins, and an empty
  array raises \<open>ValueError\<close>.
\<close>

definition np_maximum :: "npfloat \<Rightarrow> npfloat \<Rightarrow> npfloat" where
  "np_maximum a b = (if a = NaN \<or> b = NaN then NaN else if np_less a b then b else a)"

definition np_minimum :: "npfloat \<Rightarrow> npfloat \<Rightarrow> npfloat" where
  "np_minimum a b = (if a = NaN \<or> b = NaN then NaN else if np_less b a then b else a)"

definition np_max :: "npfloat list \<Rightarrow> error + npfloat" where
  "np_max xs = (case xs of [] \<Rightarrow> Inl ValueError | x # rest \<Rightarrow> Inr (foldl np_maximum x rest))"

definition np_min :: "npfloat list \<Rightarrow> error + npfloat" where
  "np_min xs = (case xs of [] \<Rightarrow> Inl ValueError | x # rest \<Rightarrow> Inr (foldl np_minimum x rest))"

text \<open>
  \<open>A[:, i]\<close> for any \<open>i \<ge> 0\<close>: a column outside the array raises \<open>IndexError\<close>.
\<close>

definition getcol :: "arr2 \<Rightarrow> nat \<Rightarrow> error + npfloat list" where
  "getcol A i = (if i < ncols A then Inr (col A i) else Inl IndexError)"

text \<open>
  \<open>minBoundRect(x, y)\<close> returns the four corners and the two side lengths \<open>ls[:2]\<close>, or
  raises where \<open>scipy.spatial.ConvexHull\<close> does; the batch driver does not look inside it,
  and it is a parameter of the model of \<open>aspectRatio\<close> and \<open>aspectRatios\<close>.
\<close>

type_synonym min_bound_rect =
  "npfloat list \<Rightarrow> npfloat list \<Rightarrow> error + npfloat list list \<times> npfloat list"

definition aspectRatio ::
  "min_bound_rect \<Rightarrow> npfloat list \<Rightarrow> npfloat list \<Rightarrow> error + npfloat \<times> npfloat" where
  "aspectRatio mbr x y =
     (case mbr x y of
        Inl e \<Rightarrow> Inl e
      | Inr (rs, ls) \<Rightarrow>
          (case np_max ls of
             Inl e \<Rightarrow> Inl e
           | Inr mx \<Rightarrow>
               (case np_min ls of
                  Inl e \<Rightarrow> Inl e
                | Inr mn \<Rightarrow> Inr (np_div mx mn, np_sub (Fin 1) (np_div mn mx)))))"

fun aspectRatios_loop ::
  "min_bound_rect \<Rightarrow> arr2 \<Rightarrow> arr2 \<Rightarrow> nat list \<Rightarrow> npfloat list \<times> npfloat list
     \<Rightarrow> error + npfloat list \<times> npfloat list" where
  "aspectRatios_loop mbr x y [] (ars, elongs) = Inr (ars, elongs)"
| "aspectRatios_loop mbr x y (i # is) (ars, elongs) =
     (case getcol y i of
        Inl e \<Rightarrow> Inl e
      | Inr yi \<Rightarrow>
          (case aspectRatio mbr (col x i) yi of
             Inl e \<Rightarrow> Inl e
           | Inr r \<Rightarrow> aspectRatios_loop mbr x y is (ars[i := fst r], elongs[i := snd r])))"

definition aspectRatios ::
  "min_bound_rect \<Rightarrow> arr2 \<Rightarrow> arr2 \<Rightarrow> error + npfloat list \<times> npfloat list" where
  "aspectRatios mbr x y =
     (let N = ncols x;
          ars = replicate N (Fin 0);
          elongs = replicate N (Fin 0)
      in aspectRatios_loop mbr x y [0..<N] (ars, elongs))"

text \<open>
  A stand-in for \<open>minBoundRect\<close> used in examples: it raises \<open>QhullError\<close> on fewer than
  three distinct points (where no hull exists) and otherwise reports sides 1 and 2.
\<close>

definition hull_checked :: min_bound_rect where
  "hull_checked x y =
     (if length (remdups (zip x y)) < 3 then Inl QhullError else Inr ([], [Fin 1, Fin 2]))"

text \<open>
  The single-trajectory computations the two batch loops run on column \<open>i\<close>.
\<close>

definition aspect_of_col ::
  "min_bound_rect \<Rightarrow> arr2 \<Rightarrow> arr2 \<Rightarrow> nat \<Rightarrow> error + npfloat \<times> npfloat" where
  "aspect_of_col mbr x y i =
     (case getcol y i of Inl e \<Rightarrow> Inl e | Inr yi \<Rightarrow> aspectRatio mbr (col x i) yi)"

definition fit_of_col ::
  "curve_fit \<Rightarrow> arr2 \<Rightarrow> npfloat \<Rightarrow> int \<Rightarrow> nat \<Rightarrow> error + npfloat \<times> npfloat" where
  "fit_of_col cf MSD dt frame i =
     cf (anom dt) (py_take frame (linspace1 (nrows MSD))) (py_take frame (col MSD i)) p0"

text \<open>
  Sequencing of computations that may raise.
\<close>

definition on_ok :: "error + 'a \<Rightarrow> ('a \<Rightarrow> error + 'b) \<Rightarrow> error + 'b" where
  "on_ok r f = (case r of Inl e \<Rightarrow> Inl e | Inr v \<Rightarrow> f v)"

text \<open>
  \<open>x[i]\<close> on a one-dimensional array and \<open>A[i, :]\<close> on a two-dimensional one, for a
  Python integer \<open>i\<close>.
\<close>

definition getitem :: "'a list \<Rightarrow> int \<Rightarrow> error + 'a" where
  "getitem xs i = on_ok (py_index (length xs) i) (\<lambda>k. Inr (xs ! k))"


text \<open>
  numpy broadcasting of two axes of lengths \<open>a\<close> and \<open>b\<close>: equal lengths, or one of them
  1 (that operand is repeated); any other pair raises \<open>ValueError\<close>.
\<close>

definition bshape :: "nat \<Rightarrow> nat \<Rightarrow> nat option" where
  "bshape a b = (if a = b then Some a else if a = 1 then Some b else if b = 1 then Some a else None)"

definition broadcast1 :: "nat \<Rightarrow> 'a list \<Rightarrow> 'a list" where
  "broadcast1 n xs = (if length xs = 1 then replicate n (hd xs) else xs)"

definition ew1 ::
  "(npfloat \<Rightarrow> npfloat \<Rightarrow> npfloat) \<Rightarrow> npfloat list \<Rightarrow> npfloat list \<Rightarrow> error + npfloat list" where
  "ew1 f xs ys =
     (case bshape (length xs) (length ys) of
        None \<Rightarrow> Inl ValueError
      | Some n \<Rightarrow> Inr (map2 f (broadcast1 n xs) (broadcast1 n ys)))"


text \<open>
  \<open>np.diff\<close> (along axis 0 for a matrix), element-wise maps, \<open>np.sum\<close> and the reductions
  along axis 0.  \<open>np.max\<close> over an axis of length 0 raises \<open>ValueError\<close>; \<open>np.sum\<close> over it
  is 0.  The order in which numpy adds the terms (one after the other for fewer than 8
  terms and along axis 0, in pairs for a longer one-dimensional array) is not modelled:
  the exact sum does not depend on it.
\<close>

definition np_diff :: "npfloat list \<Rightarrow> npfloat list" where
  "np_diff xs = map2 np_sub (tl xs) (butlast xs)"



definition np_sum :: "npfloat list \<Rightarrow> npfloat" where
  "np_sum xs = foldl np_add (Fin 0) xs"



section \<open>Path statistics\<close>

text \<open>
  \<open>efficiency\<close>, \<open>straight\<close>, \<open>bound\<close> and \<open>fractDim\<close> of one trajectory, and the batch
  variants over the columns of coordinate matrices.
\<close>

definition efficiency :: "npfloat list \<Rightarrow> npfloat list \<Rightarrow> error + npfloat" where
  "efficiency x y =
     on_ok (getitem x (- 1)) (\<lambda>xl. on_ok (getitem x 0) (\<lambda>x0.
     on_ok (getitem y (- 1)) (\<lambda>yl. on_ok (getitem y 0) (\<lambda>y0.
       let netD = np_add (np_sq (np_sub xl x0)) (np_sq (np_sub yl y0)) in
       on_ok (ew1 np_add (map np_sq (np_diff x)) (map np_sq (np_diff y))) (\<lambda>steps.
       let total = np_sum steps in
       Inr (np_div netD total))))))"


definition straight :: "npfloat list \<Rightarrow> npfloat list \<Rightarrow> error + npfloat" where
  "straight x y =
     on_ok (getitem x (- 1)) (\<lambda>xl. on_ok (getitem x 0) (\<lambda>x0.
     on_ok (getitem y (- 1)) (\<lambda>yl. on_ok (getitem y 0) (\<lambda>y0.
       let netD = np_sqrt (np_add (np_sq (np_sub xl x0)) (np_sq (np_sub yl y0))) in
       on_ok (ew1 np_add (map np_sq (np_diff x)) (map np_sq (np_diff y))) (\<lambda>steps.
       let total = np_sum (map np_sqrt steps) in
       Inr (np_div netD total))))))"







text \<open>
  A trajectory with finite coordinates, as lists of reals: its steps, their squared
  lengths, and the squared net displacement from the first to the last frame.
\<close>

definition rdiff :: "real list \<Rightarrow> real list" where
  "rdiff xs = map2 (\<lambda>a b. a - b) (tl xs) (butlast xs)"

definition step_sq :: "real list \<Rightarrow> real list \<Rightarrow> real list" where
  "step_sq xr yr = map2 (\<lambda>dx dy. dx * dx + dy * dy) (rdiff xr) (rdiff yr)"

definition net_sq :: "real list \<Rightarrow> real list \<Rightarrow> real" where
  "net_sq xr yr = (last xr - hd xr) * (last xr - hd xr) + (last yr - hd yr) * (last yr - hd yr)"

text \<open>
  The steps of a finite trajectory as vectors, the sums of their components, the squared
  length of a vector, and the paths that run along a straight line: every step is a
  non-negative multiple of the net displacement.
\<close>

definition rsteps :: "real list \<Rightarrow> real list \<Rightarrow> (real \<times> real) list" where
  "rsteps xr yr = zip (rdiff xr) (rdiff yr)"

definition sum_fst :: "(real \<times> real) list \<Rightarrow> real" where
  "sum_fst zs = sum_list (map fst zs)"

definition sum_snd :: "(real \<times> real) list \<Rightarrow> real" where
  "sum_snd zs = sum_list (map snd zs)"

definition len2 :: "real \<times> real \<Rightarrow> real" where
  "len2 z = fst z * fst z + snd z * snd z"

definition straight_line :: "real list \<Rightarrow> real list \<Rightarrow> bool" where
  "straight_line xr yr =
     (\<forall>z\<in>set (rsteps xr yr).
        \<exists>t\<ge>0. fst z = t * (last xr - hd xr) \<and> snd z = t * (last yr - hd yr))"



section \<open>Asymmetry and kurtosis\<close>

text \<open>
  \<open>np.mean\<close>, \<open>np.std\<close> (population standard deviation) and the dot product of two
  one-dimensional arrays of one length.
\<close>

definition np_mean :: "npfloat list \<Rightarrow> npfloat" where
  "np_mean xs = np_div (np_sum xs) (Fin (real (length xs)))"

definition np_std :: "npfloat list \<Rightarrow> npfloat" where
  "np_std xs = np_sqrt (np_mean (map (\<lambda>v. np_sq (np_sub v (np_mean xs))) xs))"

definition np_dot :: "npfloat list \<Rightarrow> npfloat list \<Rightarrow> npfloat" where
  "np_dot xs ys = np_sum (map2 np_mul xs ys)"

text \<open>
  A 2-by-2 matrix is the pair of its rows.  \<open>np.cov(x, y)\<close> stacks the two samples
  (\<open>ValueError\<close> when their lengths differ), centres each and scales the products by
  \<open>1/fact\<close>, where \<open>fact = n - 1\<close>, replaced by \<open>0.0\<close> when that is not positive.
\<close>

type_synonym mat2 = "(npfloat \<times> npfloat) \<times> (npfloat \<times> npfloat)"

definition cov :: "npfloat list \<Rightarrow> npfloat list \<Rightarrow> error + mat2" where
  "cov x y =
     (if length x \<noteq> length y then Inl ValueError
      else
        let n = length x;
            fact = (if int n - 1 \<le> 0 then 0 else real n - 1);
            xc = map (\<lambda>v. np_sub v (np_mean x)) x;
            yc = map (\<lambda>v. np_sub v (np_mean y)) y;
            s = np_div (Fin 1) (Fin fact)
        in Inr ((np_mul (np_dot xc xc) s, np_mul (np_dot xc yc) s),
                (np_mul (np_dot yc xc) s, np_mul (np_dot yc yc) s)))"

text \<open>
  Python's \<open>min\<close> and \<open>max\<close> over the two eigenvalues: the first is kept unless the second
  compares smaller (greater).
\<close>

definition py_min2 :: "npfloat \<Rightarrow> npfloat \<Rightarrow> npfloat" where
  "py_min2 a b = (if np_less b a then b else a)"

definition py_max2 :: "npfloat \<Rightarrow> npfloat \<Rightarrow> npfloat" where
  "py_max2 a b = (if np_greater b a then b else a)"

text \<open>
  \<open>np.linalg.eig\<close> is an external collaborator and a parameter of the model: it raises or
  returns the eigenvalues \<open>(eigs[0], eigs[1])\<close> and the matrix \<open>vecs\<close> whose column \<open>k\<close> is
  the eigenvector of \<open>eigs[k]\<close>, in the order the library chooses.
\<close>

type_synonym eig = "mat2 \<Rightarrow> error + (npfloat \<times> npfloat) \<times> mat2"

definition col0 :: "mat2 \<Rightarrow> npfloat \<times> npfloat" where
  "col0 V = (fst (fst V), fst (snd V))"

definition col1 :: "mat2 \<Rightarrow> npfloat \<times> npfloat" where
  "col1 V = (snd (fst V), snd (snd V))"

text \<open>
  \<open>asym(x, y)\<close>: the three asymmetry features, the eigenvalues, the eigenvectors and the
  kurtosis \<open>K\<close>.
\<close>

definition asym ::
  "eig \<Rightarrow> npfloat list \<Rightarrow> npfloat list
     \<Rightarrow> error + (npfloat \<times> npfloat \<times> npfloat) \<times> (npfloat \<times> npfloat) \<times> mat2 \<times> npfloat" where
  "asym eig x y =
     on_ok (cov x y) (\<lambda>C. on_ok (eig C) (\<lambda>(eigs, vecs).
       let e0 = fst eigs; e1 = snd eigs;
           a1 = np_div (np_sq (np_sub (np_sq e0) (np_sq e1)))
                       (np_sq (np_add (np_sq e0) (np_sq e1)));
           a2 = np_div (py_min2 e0 e1) (py_max2 e0 e1);
           a3 = np_neg (np_log (np_sub (Fin 1)
                  (np_div (np_mul (Fin (1 / 2)) (np_sq (np_sub e0 e1)))
                          (np_sq (np_add e0 e1)))));
           n = length x;
           xy = zip x y;
           v = col0 vecs;
           xp = map (\<lambda>p. np_add (np_mul (fst p) (fst v)) (np_mul (snd p) (snd v))) xy;
           K = np_div (np_sum (map (\<lambda>p. np_div (np_pow4 (np_sub p (np_mean xp)))
                                               (np_pow4 (np_std xp))) xp))
                      (Fin (real n))
       in Inr ((a1, a2, a3), eigs, vecs, K)))"

text \<open>
  A stand-in for \<open>np.linalg.eig\<close> used in examples: on a finite diagonal matrix it
  returns the diagonal entries in their order with the unit vectors (what the library
  returns there); it refuses every other matrix.
\<close>

definition eig_diag :: eig where
  "eig_diag C =
     (case C of ((Fin a, Fin b), (Fin c, Fin d)) \<Rightarrow>
        if b = 0 \<and> c = 0 then Inr ((Fin a, Fin d), ((Fin 1, Fin 0), (Fin 0, Fin 1)))
        else Inl LinAlgError
      | _ \<Rightarrow> Inl LinAlgError)"

text \<open>
  The notions the kurtosis claim speaks of: the projection of the points onto a vector,
  the 4th standardized moment of a sample (the mean 4th power of the deviations over the
  4th power of the standard deviation), and the dominant eigenvector (the column of the
  larger eigenvalue).
\<close>

definition project :: "npfloat list \<Rightarrow> npfloat list \<Rightarrow> npfloat \<times> npfloat \<Rightarrow> npfloat list" where
  "project x y v = map (\<lambda>p. np_add (np_mul (fst p) (fst v)) (np_mul (snd p) (snd v))) (zip x y)"

definition moment4 :: "npfloat list \<Rightarrow> npfloat" where
  "moment4 ps =
     np_div (np_mean (map (\<lambda>p. np_pow4 (np_sub p (np_mean ps))) ps)) (np_pow4 (np_std ps))"

definition dominant :: "npfloat \<times> npfloat \<Rightarrow> mat2 \<Rightarrow> npfloat \<times> npfloat" where
  "dominant eigs vecs = (if np_less (fst eigs) (snd eigs) then col1 vecs else col0 vecs)"

text \<open>
  Mean, variance and 4th central moment of a sample of reals.
\<close>

definition rmean :: "real list \<Rightarrow> real" where
  "rmean rs = sum_list rs / real (length rs)"

definition rvar :: "real list \<Rightarrow> real" where
  "rvar rs = rmean (map (\<lambda>r. (r - rmean rs) * (r - rmean rs)) rs)"

definition rm4 :: "real list \<Rightarrow> real" where
  "rm4 rs = rmean (map (\<lambda>r. (r - rmean rs) * (r - rmean rs) * ((r - rmean rs) * (r - rmean rs))) rs)"

section \<open>Properties\<close>

subsection \<open>MSD consistency\<close>

text \<open>
  C4 (the code at the input the claim covers).  The claim says that \<open>msdRatio\<close> succeeds
  on every well-formed finite MSD profile with at least one row.  On the one-row profile
  \<open>[1.0]\<close> the function raises \<open>NameError\<close>: the matrix it computed is bound to
  \<open>Mratio\<close>, and the \<open>return\<close> statement reads the unbound name \<open>MRatio\<close>.
\<close>

theorem msdRatio_one_row_raises:
  "msdRatio [Fin 1] = Inl (NameError ''MRatio'')"
  by (simp add: msdRatio_def read_name_def module_globals_def Let_def meshgrid_def)

text \<open>The same holds for every profile: no input reaches a successful return.\<close>

lemma msdRatio_always_raises: "msdRatio M = Inl (NameError ''MRatio'')"
  by (simp add: msdRatio_def read_name_def module_globals_def Let_def split: prod.splits)

lemma fold_pair:
  "fold (\<lambda>i (a, b). (f i a, g i b)) xs (a0, b0) = (fold f xs a0, fold g xs b0)"
  by (induction xs arbitrary: a0 b0) auto


lemma set_plane_shape:
  "shape3 A n N \<Longrightarrow> shape2 P n \<Longrightarrow> shape3 (set_plane A i P) n N"
  by (simp add: shape3_def shape2_def set_plane_def)

lemma set_plane_nth:
  "shape3 A n N \<Longrightarrow> shape2 P n \<Longrightarrow> r < n \<Longrightarrow> c < n \<Longrightarrow>
   set_plane A i P ! r ! c = (A ! r ! c)[i := P ! r ! c]"
  by (simp add: shape3_def shape2_def set_plane_def)

lemma fold_planes:
  assumes A: "shape3 A n N" and P: "\<And>i. shape2 (P i) n"
  shows "shape3 (fold (\<lambda>i B. set_plane B i (P i)) [0..<k] A) n N \<and>
         (\<forall>r<n. \<forall>c<n. \<forall>t<N. fold (\<lambda>i B. set_plane B i (P i)) [0..<k] A ! r ! c ! t
             = (if t < k then P t ! r ! c else A ! r ! c ! t))"
proof (induction k)
  case 0
  show ?case using A by simp
next
  case (Suc k)
  let ?B = "fold (\<lambda>i B. set_plane B i (P i)) [0..<k] A"
  have sh: "shape3 ?B n N" using Suc by blast
  have step: "fold (\<lambda>i B. set_plane B i (P i)) [0..<Suc k] A = set_plane ?B k (P k)"
    by simp
  have "shape3 (set_plane ?B k (P k)) n N"
    by (rule set_plane_shape [OF sh P])
  moreover have "\<forall>r<n. \<forall>c<n. \<forall>t<N. set_plane ?B k (P k) ! r ! c ! t
             = (if t < Suc k then P t ! r ! c else A ! r ! c ! t)"
  proof (intro allI impI)
    fix r c t assume r: "r < n" and c: "c < n" and t: "t < N"
    have len: "length (?B ! r ! c) = N" using sh r c by (simp add: shape3_def)
    have old: "?B ! r ! c ! t = (if t < k then P t ! r ! c else A ! r ! c ! t)"
      using Suc r c t by blast
    show "set_plane ?B k (P k) ! r ! c ! t = (if t < Suc k then P t ! r ! c else A ! r ! c ! t)"
      using set_plane_nth [OF sh P r c, of k] len old t
      by (auto simp: nth_list_update less_Suc_eq)
  qed
  ultimately show ?case unfolding step by blast
qed


lemma ew3_shape: "shape3 A n N \<Longrightarrow> shape3 B n N \<Longrightarrow> shape3 (ew3 f A B) n N"
  by (simp add: shape3_def ew3_def)

lemma ew3_nth:
  "shape3 A n N \<Longrightarrow> shape3 B n N \<Longrightarrow> r < n \<Longrightarrow> c < n \<Longrightarrow> t < N \<Longrightarrow>
   ew3 f A B ! r ! c ! t = f (A ! r ! c ! t) (B ! r ! c ! t)"
  by (simp add: shape3_def ew3_def)

lemma tile3_shape: "shape2 A n \<Longrightarrow> shape3 (tile3 N A) n N"
  by (simp add: shape3_def shape2_def tile3_def)

lemma tile3_nth:
  "shape2 A n \<Longrightarrow> r < n \<Longrightarrow> c < n \<Longrightarrow> t < N \<Longrightarrow> tile3 N A ! r ! c ! t = A ! r ! c"
  by (simp add: shape2_def tile3_def)

lemma zeros3_shape: "shape3 (zeros3 n N) n N"
  by (simp add: shape3_def zeros3_def)

lemma meshgrid_shape:
  "length a = n \<Longrightarrow> shape2 (fst (meshgrid a a)) n \<and> shape2 (snd (meshgrid a a)) n"
  by (simp add: shape2_def meshgrid_def)

lemma meshgrid_nth:
  "r < length a \<Longrightarrow> c < length a \<Longrightarrow>
   fst (meshgrid a a) ! r ! c = a ! c \<and> snd (meshgrid a a) ! r ! c = a ! r"
  by (simp add: meshgrid_def)

lemma linspace1_nth: "k < n \<Longrightarrow> linspace1 n ! k = Fin (real (Suc k))"
  unfolding linspace1_def by (simp del: upt_Suc add: nth_map_upt)

lemma length_linspace1: "length (linspace1 n) = n"
  by (simp add: linspace1_def)

lemma msd_planes_split:
  "msd_planes Ms is (A, B) =
     (fold (\<lambda>i M. set_plane M i (fst (meshgrid (col Ms i) (col Ms i)))) is A,
      fold (\<lambda>i M. set_plane M i (snd (meshgrid (col Ms i) (col Ms i)))) is B)"
  unfolding msd_planes_def
  by (induction "is" arbitrary: A B) (auto simp: Let_def split: prod.splits)

lemma msdRatios_nth:
  assumes r: "r < nrows Ms" and c: "c < nrows Ms" and t: "t < ncols Ms"
  shows "msdRatios Ms ! r ! c ! t =
           (if c < r then Fin 0
            else np_sub (np_div (col Ms t ! r) (col Ms t ! c))
                        (np_div (Fin (real (Suc r))) (Fin (real (Suc c)))))"
proof -
  define n where "n = nrows Ms"
  define N where "N = ncols Ms"
  define ns where "ns = linspace1 n"
  define Py where "Py = (\<lambda>i. fst (meshgrid (col Ms i) (col Ms i)))"
  define Px where "Px = (\<lambda>i. snd (meshgrid (col Ms i) (col Ms i)))"
  define M2y where "M2y = fold (\<lambda>i M. set_plane M i (Py i)) [0..<N] (zeros3 n N)"
  define M2x where "M2x = fold (\<lambda>i M. set_plane M i (Px i)) [0..<N] (zeros3 n N)"
  define n2y where "n2y = tile3 N (fst (meshgrid ns ns))"
  define n2x where "n2x = tile3 N (snd (meshgrid ns ns))"
  have lencol: "\<And>i. length (col Ms i) = n" by (simp add: col_def n_def nrows_def)
  have Py: "\<And>i. shape2 (Py i) n" and Px: "\<And>i. shape2 (Px i) n"
    using meshgrid_shape [OF lencol] by (simp_all add: Py_def Px_def)
  note fy = fold_planes [OF zeros3_shape, of Py n N N, OF Py]
  note fx = fold_planes [OF zeros3_shape, of Px n N N, OF Px]
  have shy: "shape3 M2y n N" and shx: "shape3 M2x n N"
    using fy fx by (simp_all add: M2y_def M2x_def)
  have r': "r < n" and c': "c < n" and t': "t < N" using r c t by (simp_all add: n_def N_def)
  have vy: "M2y ! r ! c ! t = col Ms t ! c"
    using fy r' c' t' meshgrid_nth [of r "col Ms t" c] lencol
    by (simp add: M2y_def Py_def)
  have vx: "M2x ! r ! c ! t = col Ms t ! r"
    using fx r' c' t' meshgrid_nth [of r "col Ms t" c] lencol
    by (simp add: M2x_def Px_def)
  have nsh: "shape2 (fst (meshgrid ns ns)) n \<and> shape2 (snd (meshgrid ns ns)) n"
    by (rule meshgrid_shape) (simp add: ns_def length_linspace1)
  have shny: "shape3 n2y n N" and shnx: "shape3 n2x n N"
    using nsh by (simp_all add: n2y_def n2x_def tile3_shape)
  have mg: "fst (meshgrid ns ns) ! r ! c = Fin (real (Suc c))"
      "snd (meshgrid ns ns) ! r ! c = Fin (real (Suc r))"
    using r' c' meshgrid_nth [of r ns c]
    by (simp_all add: ns_def length_linspace1 linspace1_nth)
  have ny: "n2y ! r ! c ! t = Fin (real (Suc c))"
    unfolding n2y_def using tile3_nth [OF conjunct1 [OF nsh] r' c' t'] mg by simp
  have nx: "n2x ! r ! c ! t = Fin (real (Suc r))"
    unfolding n2x_def using tile3_nth [OF conjunct2 [OF nsh] r' c' t'] mg by simp
  have unfold: "msdRatios Ms =
      mask_assign3 (ew3 np_sub (ew3 np_div M2x M2y) (ew3 np_div n2x n2y))
        (ew3 np_greater n2x n2y) (Fin 0)"
    by (simp add: msdRatios_def Let_def msd_planes_split M2y_def M2x_def n2y_def n2x_def
        Py_def Px_def ns_def n_def N_def split: prod.splits)
  have sh1: "shape3 (ew3 np_div M2x M2y) n N" by (rule ew3_shape [OF shx shy])
  have sh2: "shape3 (ew3 np_div n2x n2y) n N" by (rule ew3_shape [OF shnx shny])
  have sh3: "shape3 (ew3 np_sub (ew3 np_div M2x M2y) (ew3 np_div n2x n2y)) n N"
    by (rule ew3_shape [OF sh1 sh2])
  have sh4: "shape3 (ew3 np_greater n2x n2y) n N" by (rule ew3_shape [OF shnx shny])
  show ?thesis
    unfolding unfold mask_assign3_def
    by (simp add: ew3_nth [OF sh3 sh4 r' c' t'] ew3_nth [OF sh1 sh2 r' c' t']
        ew3_nth [OF shx shy r' c' t'] ew3_nth [OF shnx shny r' c' t']
        vx vy nx ny np_greater_def)
qed


text \<open>
  C3.  For an MSD matrix with finite positive entries, the matrix \<open>msdRatios\<close> builds for
  trajectory \<open>t\<close> has, at the 1-based lags \<open>i\<close> and \<open>j\<close>, the entry
  \<open>MSD[i]/MSD[j] - i/j\<close> when \<open>i \<le> j\<close> and exactly zero when \<open>i > j\<close>.
\<close>

theorem msdRatios_upper_triangular:
  assumes wf: "wf_arr2 Ms" and pos: "finite_positive Ms"
    and i: "1 \<le> i" "i \<le> nrows Ms" and j: "1 \<le> j" "j \<le> nrows Ms" and t: "t < ncols Ms"
  shows "msdRatios Ms ! (i - 1) ! (j - 1) ! t =
           (if i \<le> j then Fin (msd_at Ms i t / msd_at Ms j t - real i / real j) else Fin 0)"
proof -
  have r: "i - 1 < nrows Ms" and c: "j - 1 < nrows Ms" using i j by simp_all
  have entry: "\<exists>a. 0 < a \<and> rows Ms ! k ! t = Fin a" if k: "k < nrows Ms" for k
  proof -
    have row: "rows Ms ! k \<in> set (rows Ms)" using k by (simp add: nrows_def)
    then have "length (rows Ms ! k) = ncols Ms" using wf by (simp add: wf_arr2_def list_all_iff)
    then have "rows Ms ! k ! t \<in> set (rows Ms ! k)" using t by simp
    with row pos have "case rows Ms ! k ! t of Fin a \<Rightarrow> 0 < a | _ \<Rightarrow> False"
      by (simp add: finite_positive_def list_all_iff)
    then show ?thesis by (cases "rows Ms ! k ! t") simp_all
  qed
  obtain a where a: "0 < a" "rows Ms ! (i - 1) ! t = Fin a" using entry [OF r] by blast
  obtain b where b: "0 < b" "rows Ms ! (j - 1) ! t = Fin b" using entry [OF c] by blast
  have ci: "col Ms t ! (i - 1) = Fin a" and cj: "col Ms t ! (j - 1) = Fin b"
    using r c a b by (simp_all add: col_def nrows_def)
  have si: "real (Suc (i - 1)) = real i" and sj: "real (Suc (j - 1)) = real j"
    using i j by simp_all
  have jpos: "real j \<noteq> 0" using j by simp
  show ?thesis
    unfolding msdRatios_nth [OF r c t] ci cj si sj msd_at_def
    using a b i j jpos by (auto simp: np_sub_def)
qed

theorem msdRatios_upper_triangular_witness:
  "msdRatios \<lparr>ncols = 2, rows = [[Fin 1, Fin 2], [Fin 3, Fin 5], [Fin 4, Fin 10]]\<rparr> ! 0 ! 1 ! 0
     = Fin (1 / 3 - 1 / 2) \<and>
   msdRatios \<lparr>ncols = 2, rows = [[Fin 1, Fin 2], [Fin 3, Fin 5], [Fin 4, Fin 10]]\<rparr> ! 2 ! 1 ! 1
     = Fin 0"
  using msdRatios_upper_triangular
          [of "\<lparr>ncols = 2, rows = [[Fin 1, Fin 2], [Fin 3, Fin 5], [Fin 4, Fin 10]]\<rparr>" 1 2 0]
        msdRatios_upper_triangular
          [of "\<lparr>ncols = 2, rows = [[Fin 1, Fin 2], [Fin 3, Fin 5], [Fin 4, Fin 10]]\<rparr>" 3 2 1]
  by (simp add: wf_arr2_def finite_positive_def nrows_def msd_at_def)

subsection \<open>Sliding-window fits\<close>

lemma ceil_div_less:
  fixes d s :: int
  assumes s: "0 < s"
  shows "int k < (d + s - 1) div s \<longleftrightarrow> int k * s < d"
proof
  assume "int k < (d + s - 1) div s"
  then have "int k + 1 \<le> (d + s - 1) div s" by simp
  then have "(int k + 1) * s \<le> ((d + s - 1) div s) * s"
    using s by (simp add: mult_right_mono)
  also have "\<dots> \<le> d + s - 1"
    using s by (metis mult.commute mult_div_mod_eq pos_mod_sign le_add_same_cancel1)
  finally show "int k * s < d" by (simp add: algebra_simps)
next
  assume "int k * s < d"
  then have "(int k + 1) * s \<le> d + s - 1" by (simp add: algebra_simps)
  then have "((int k + 1) * s) div s \<le> (d + s - 1) div s"
    using s by (rule zdiv_mono1)
  then show "int k < (d + s - 1) div s" using s by simp
qed

lemma py_range_pos:
  assumes s: "0 < step"
  shows "\<exists>xs. py_range start stop step = Inr xs \<and> distinct xs \<and>
           set xs = {i. start \<le> i \<and> i < stop \<and> (i - start) mod step = 0}"
proof -
  define n where "n = nat ((stop - start + step - 1) div step)"
  define xs where "xs = map (\<lambda>k. start + int k * step) [0..<n]"
  have r: "py_range start stop step = Inr xs"
    using s by (simp add: py_range_def xs_def n_def)
  have inj: "inj_on (\<lambda>k. start + int k * step) (set [0..<n])"
    using s by (intro inj_onI) simp
  have d: "distinct xs" unfolding xs_def using inj by (simp add: distinct_map)
  have lt: "k < n \<longleftrightarrow> int k * step < stop - start" for k
    using ceil_div_less [OF s, of k "stop - start"] by (auto simp: n_def)
  have "set xs = {i. start \<le> i \<and> i < stop \<and> (i - start) mod step = 0}"
  proof (intro set_eqI iffI)
    fix i assume "i \<in> set xs"
    then obtain k where k: "k < n" "i = start + int k * step" by (auto simp: xs_def)
    then show "i \<in> {i. start \<le> i \<and> i < stop \<and> (i - start) mod step = 0}"
      using lt [of k] s by auto
  next
    fix i assume "i \<in> {i. start \<le> i \<and> i < stop \<and> (i - start) mod step = 0}"
    then have i: "start \<le> i" "i < stop" "(i - start) mod step = 0" by auto
    define k where "k = nat ((i - start) div step)"
    have q: "0 \<le> (i - start) div step" using i s by (simp add: pos_imp_zdiv_nonneg_iff)
    have e: "i - start = int k * step"
      using i(3) q by (simp add: k_def mod_eq_0_iff_dvd)
    then have "k < n" using lt [of k] i by simp
    moreover have "i = start + int k * step" using e by simp
    ultimately show "i \<in> set xs" by (auto simp: xs_def)
  qed
  with r d show ?thesis by blast
qed

lemma setitem1_in_range:
  "0 \<le> i \<Longrightarrow> i < int (length xs) \<Longrightarrow> setitem1 xs i v = Inr (xs[nat i := v])"
  by (simp add: setitem1_def py_index_def)

lemma anomModels_loop_result:
  assumes "\<forall>i\<in>set is. 0 \<le> i \<and> i < int K" and "distinct is"
    and "length Ds = K" and "length alphas = K"
    and "anomModels_loop cf dt N MSD is (Ds, alphas) = Inr (Ds', alphas')"
  shows "length Ds' = K \<and> length alphas' = K \<and>
         (\<forall>k<K. (int k \<in> set is \<longrightarrow>
                    cf (anom dt) (py_take (int k) N) (py_take (int k) MSD) p0
                      = Inr (Ds' ! k, alphas' ! k)) \<and>
                 (int k \<notin> set is \<longrightarrow> Ds' ! k = Ds ! k \<and> alphas' ! k = alphas ! k))"
  using assms
proof (induction "is" arbitrary: Ds alphas)
  case Nil
  then show ?case by simp
next
  case (Cons i "is")
  from Cons.prems(1) have i: "0 \<le> i" "i < int K" by simp_all
  obtain ps where ps: "cf (anom dt) (py_take i N) (py_take i MSD) p0 = Inr ps"
    using Cons.prems(5) by (cases "cf (anom dt) (py_take i N) (py_take i MSD) p0") simp_all
  let ?Ds = "Ds[nat i := fst ps]" and ?al = "alphas[nat i := snd ps]"
  have rest: "anomModels_loop cf dt N MSD is (?Ds, ?al) = Inr (Ds', alphas')"
    using Cons.prems(5) ps i Cons.prems(3,4) by (simp add: setitem1_in_range)
  have IH: "length Ds' = K \<and> length alphas' = K \<and>
         (\<forall>k<K. (int k \<in> set is \<longrightarrow>
                    cf (anom dt) (py_take (int k) N) (py_take (int k) MSD) p0
                      = Inr (Ds' ! k, alphas' ! k)) \<and>
                 (int k \<notin> set is \<longrightarrow> Ds' ! k = ?Ds ! k \<and> alphas' ! k = ?al ! k))"
    using Cons.prems by (intro Cons.IH [OF _ _ _ _ rest]) simp_all
  have notin: "i \<notin> set is" using Cons.prems(2) by simp
  show ?case
  proof (intro conjI allI impI)
    show "length Ds' = K" "length alphas' = K" using IH by simp_all
  next
    fix k assume k: "k < K" and mem: "int k \<in> set (i # is)"
    show "cf (anom dt) (py_take (int k) N) (py_take (int k) MSD) p0 = Inr (Ds' ! k, alphas' ! k)"
    proof (cases "int k = i")
      case True
      then have "int k \<notin> set is" using notin by simp
      then have "Ds' ! k = ?Ds ! k" "alphas' ! k = ?al ! k" using IH k by simp_all
      moreover have "nat i = k" using True by auto
      ultimately show ?thesis using ps True k Cons.prems(3,4) by simp
    next
      case False
      then show ?thesis using mem IH k by simp
    qed
  next
    fix k assume k: "k < K" and nm: "int k \<notin> set (i # is)"
    then have "nat i \<noteq> k" using i by auto
    then show "Ds' ! k = Ds ! k" "alphas' ! k = alphas ! k" using IH k nm by simp_all
  qed
qed

lemma anomModels_loop_succeeds:
  assumes "\<forall>i\<in>set is. 0 \<le> i \<and> i < int K"
    and "length Ds = K" and "length alphas = K"
    and "\<forall>i\<in>set is. \<exists>ps. cf (anom dt) (py_take i N) (py_take i MSD) p0 = Inr ps"
  shows "\<exists>r. anomModels_loop cf dt N MSD is (Ds, alphas) = Inr r"
  using assms
proof (induction "is" arbitrary: Ds alphas)
  case Nil
  then show ?case by simp
next
  case (Cons i "is")
  from Cons.prems(1) have i: "0 \<le> i" "i < int K" by simp_all
  obtain ps where ps: "cf (anom dt) (py_take i N) (py_take i MSD) p0 = Inr ps"
    using Cons.prems(4) by auto
  have "\<exists>r. anomModels_loop cf dt N MSD is (Ds[nat i := fst ps], alphas[nat i := snd ps]) = Inr r"
    using Cons.prems by (intro Cons.IH) simp_all
  then show ?case using ps i Cons.prems(2,3) by (simp add: setitem1_in_range)
qed

lemma anomModels_loop_fails:
  assumes "anomModels_loop cf dt N MSD is (Ds, alphas) = Inr r" and "i \<in> set is"
  shows "\<exists>ps. cf (anom dt) (py_take i N) (py_take i MSD) p0 = Inr ps"
  using assms
proof (induction "is" arbitrary: Ds alphas)
  case Nil
  then show ?case by simp
next
  case (Cons j "is")
  then show ?case
    by (auto split: sum.splits)
qed

lemma anomModels_range:
  assumes s: "0 < skips"
  shows "\<exists>is. py_range 10 (int K) skips = Inr is \<and> distinct is \<and>
           (\<forall>k. int k \<in> set is \<longleftrightarrow> window_fitted K skips k) \<and>
           (\<forall>i\<in>set is. 0 \<le> i \<and> i < int K)"
proof -
  obtain "is" where r: "py_range 10 (int K) skips = Inr is" "distinct is"
    "set is = {i. 10 \<le> i \<and> i < int K \<and> (i - 10) mod skips = 0}"
    using py_range_pos [OF s, of 10 "int K"] by blast
  have "\<forall>k. int k \<in> set is \<longleftrightarrow> window_fitted K skips k"
    by (auto simp: r(3) window_fitted_def)
  moreover have "\<forall>i\<in>set is. 0 \<le> i \<and> i < int K" by (auto simp: r(3))
  ultimately show ?thesis using r by blast
qed

lemma anomModels_unfold:
  "py_range 10 (int (length MSD)) skips = Inr is \<Longrightarrow>
   anomModels cf MSD dt skips =
     anomModels_loop cf dt (linspace1 (length MSD)) MSD is
       (replicate (length MSD) (Fin 0), replicate (length MSD) (Fin 0))"
  by (simp add: anomModels_def Let_def)

lemma fit_window_eq:
  "cf (anom dt) (py_take (int k) (linspace1 (length MSD))) (py_take (int k) MSD) p0
     = fit_window cf dt MSD k"
  by (simp add: fit_window_def py_take_def)

text \<open>
  What the loop of \<open>anomModels\<close> computes for a positive stride: the call returns when
  every fit it runs succeeds; the outputs have the length of the profile; the windows
  it fits are stored at the index of their length, every other entry keeps its zero; and
  a profile of 9 points gives two all-zero vectors of length 9.
\<close>

lemma anomModels_behaviour:
  assumes s: "0 < skips"
  shows "((\<forall>i. window_fitted (length MSD) skips i \<longrightarrow> (\<exists>ps. fit_window cf dt MSD i = Inr ps)) \<longrightarrow>
           (\<exists>Ds alphas. anomModels cf MSD dt skips = Inr (Ds, alphas))) \<and>
         (\<forall>Ds alphas. anomModels cf MSD dt skips = Inr (Ds, alphas) \<longrightarrow>
            length Ds = length MSD \<and> length alphas = length MSD \<and>
            (\<forall>i<length MSD.
               if window_fitted (length MSD) skips i
               then fit_window cf dt MSD i = Inr (Ds ! i, alphas ! i)
               else Ds ! i = Fin 0 \<and> alphas ! i = Fin 0)) \<and>
         (length MSD = 9 \<longrightarrow>
            anomModels cf MSD dt skips = Inr (replicate 9 (Fin 0), replicate 9 (Fin 0)))"
proof -
  let ?K = "length MSD"
  obtain "is" where r: "py_range 10 (int ?K) skips = Inr is" and d: "distinct is"
    and mem: "\<And>k. int k \<in> set is \<longleftrightarrow> window_fitted ?K skips k"
    and rng: "\<forall>i\<in>set is. 0 \<le> i \<and> i < int ?K"
    using anomModels_range [OF s, of ?K] by blast
  note unf = anomModels_unfold [OF r]
  have succ: "\<exists>Ds alphas. anomModels cf MSD dt skips = Inr (Ds, alphas)"
    if all: "\<forall>i. window_fitted ?K skips i \<longrightarrow> (\<exists>ps. fit_window cf dt MSD i = Inr ps)"
  proof -
    have "\<forall>i\<in>set is. \<exists>ps. cf (anom dt) (py_take i (linspace1 ?K)) (py_take i MSD) p0 = Inr ps"
    proof
      fix i assume i: "i \<in> set is"
      then have "0 \<le> i" using rng by simp
      then obtain k where k: "i = int k" using nonneg_int_cases by blast
      then have "window_fitted ?K skips k" using mem i by simp
      then show "\<exists>ps. cf (anom dt) (py_take i (linspace1 ?K)) (py_take i MSD) p0 = Inr ps"
        using all k by (simp add: fit_window_eq)
    qed
    with rng have "\<exists>r. anomModels_loop cf dt (linspace1 ?K) MSD is
        (replicate ?K (Fin 0), replicate ?K (Fin 0)) = Inr r"
      by (intro anomModels_loop_succeeds [where K = "?K"]) simp_all
    then show ?thesis unfolding unf by auto
  qed
  have res: "length Ds = ?K \<and> length alphas = ?K \<and>
            (\<forall>i<?K. if window_fitted ?K skips i
               then fit_window cf dt MSD i = Inr (Ds ! i, alphas ! i)
               else Ds ! i = Fin 0 \<and> alphas ! i = Fin 0)"
    if ret: "anomModels cf MSD dt skips = Inr (Ds, alphas)" for Ds alphas
  proof -
    from ret have "anomModels_loop cf dt (linspace1 ?K) MSD is
       (replicate ?K (Fin 0), replicate ?K (Fin 0)) = Inr (Ds, alphas)"
      by (simp add: unf)
    with rng d have "length Ds = ?K \<and> length alphas = ?K \<and>
         (\<forall>k<?K. (int k \<in> set is \<longrightarrow>
                    cf (anom dt) (py_take (int k) (linspace1 ?K)) (py_take (int k) MSD) p0
                      = Inr (Ds ! k, alphas ! k)) \<and>
                 (int k \<notin> set is \<longrightarrow> Ds ! k = replicate ?K (Fin 0) ! k \<and>
                    alphas ! k = replicate ?K (Fin 0) ! k))"
      by (intro anomModels_loop_result [where K = "?K"]) simp_all
    then show ?thesis by (simp add: mem fit_window_eq)
  qed
  have nine: "anomModels cf MSD dt skips = Inr (replicate 9 (Fin 0), replicate 9 (Fin 0))"
    if K: "?K = 9"
  proof -
    have "i \<notin> set is" for i
    proof
      assume i: "i \<in> set is"
      then have "0 \<le> i" using rng by simp
      then obtain k where k: "i = int k" using nonneg_int_cases by blast
      then have "window_fitted ?K skips k" using mem i by simp
      then have "10 \<le> k" "k < 9" using K by (simp_all add: window_fitted_def)
      then show False by linarith
    qed
    then have "is = []" by (cases "is") auto
    then show ?thesis using K by (simp add: unf)
  qed
  from succ res nine show ?thesis by blast
qed

lemma all_fin_replicate: "list_all is_fin (replicate n (Fin a))"
  by (simp add: list_all_iff is_fin_def)

lemma replicate_update_last: "(replicate (Suc n) a)[n := v] = replicate n a @ [v]"
  by (induction n) simp_all

text \<open>
  C2 (the code at the failing inputs).  The claim has the model refitted at every window
  length from 10 up to the full profile length, and the comment in \<open>anomModels\<close> says that
  all profiles of at least 10 frames are fitted.  The loop \<open>range(10, steps-1, skips)\<close>
  stops one short.  On a profile of 10 points with stride 1 nothing is fitted and both
  outputs are all zero, although the fit of the 10 points succeeds; on a profile of 11
  points the window of length 10 is fitted and stored at index 10 and the window of
  length 11 is not, although its fit succeeds too.
\<close>

theorem anomModels_full_window_not_fitted:
  "anomModels fit_checked (replicate 10 (Fin 1)) (Fin 1) 1
     = Inr (replicate 10 (Fin 0), replicate 10 (Fin 0)) \<and>
   fit_window fit_checked (Fin 1) (replicate 10 (Fin 1)) 10 = Inr (Fin 10, Fin 1) \<and>
   anomModels fit_checked (replicate 11 (Fin 1)) (Fin 1) 1
     = Inr (replicate 10 (Fin 0) @ [Fin 10], replicate 10 (Fin 0) @ [Fin 1]) \<and>
   fit_window fit_checked (Fin 1) (replicate 11 (Fin 1)) 11 = Inr (Fin 11, Fin 1)"
proof -
  have "(replicate 11 (Fin 0))[10 := v] = replicate 10 (Fin 0) @ [v]" for v :: npfloat
    using replicate_update_last [of 10 "Fin 0" v] by simp
  then show ?thesis
    by (simp add: anomModels_def py_range_def fit_checked_def fit_window_def p0_def
        py_take_def setitem1_def py_index_def linspace1_def all_fin_replicate Let_def)
qed

lemma setitem2_rows:
  assumes "setitem2 A f j v = Inr A'" and "0 \<le> f"
  shows "length A' = length A \<and> (\<forall>k. int k \<noteq> f \<longrightarrow> A' ! k = A ! k)"
  using assms
  by (auto simp: setitem2_def py_index_def Let_def split: if_splits)

lemma anomModelsN_frames_rows:
  assumes "anomModelsN_frames cf dt n MSD i fs (Ds, alphas) = Inr (Ds', alphas')"
    and "\<forall>f\<in>set fs. 0 \<le> f"
  shows "length Ds' = length Ds \<and> length alphas' = length alphas \<and>
         (\<forall>k. int k \<notin> set fs \<longrightarrow> Ds' ! k = Ds ! k \<and> alphas' ! k = alphas ! k)"
  using assms
proof (induction fs arbitrary: Ds alphas)
  case Nil
  then show ?case by simp
next
  case (Cons f fs)
  from Cons.prems(1) obtain ps D1 a1 where
    s1: "setitem2 Ds f i (fst ps) = Inr D1" and s2: "setitem2 alphas f i (snd ps) = Inr a1"
    and rest: "anomModelsN_frames cf dt n MSD i fs (D1, a1) = Inr (Ds', alphas')"
    by (auto split: sum.splits)
  have f: "0 \<le> f" using Cons.prems(2) by simp
  note r1 = setitem2_rows [OF s1 f] and r2 = setitem2_rows [OF s2 f]
  have IH: "length Ds' = length D1 \<and> length alphas' = length a1 \<and>
         (\<forall>k. int k \<notin> set fs \<longrightarrow> Ds' ! k = D1 ! k \<and> alphas' ! k = a1 ! k)"
    using Cons.prems(2) by (intro Cons.IH [OF rest]) simp
  show ?case using IH r1 r2 by auto
qed

lemma anomModelsN_loop_rows:
  assumes "anomModelsN_loop cf dt skips n MSD cols (Ds, alphas) = Inr (Ds', alphas')"
    and "py_range 10 (int (nrows MSD)) skips = Inr fs" and "\<forall>f\<in>set fs. 0 \<le> f"
  shows "length Ds' = length Ds \<and> length alphas' = length alphas \<and>
         (\<forall>k. int k \<notin> set fs \<longrightarrow> Ds' ! k = Ds ! k \<and> alphas' ! k = alphas ! k)"
  using assms(1)
proof (induction cols arbitrary: Ds alphas)
  case Nil
  then show ?case by simp
next
  case (Cons i cols)
  from Cons.prems assms(2) obtain D1 a1 where
    fr: "anomModelsN_frames cf dt n MSD i fs (Ds, alphas) = Inr (D1, a1)"
    and rest: "anomModelsN_loop cf dt skips n MSD cols (D1, a1) = Inr (Ds', alphas')"
    by (auto split: sum.splits)
  note a = anomModelsN_frames_rows [OF fr assms(3)]
  note b = Cons.IH [OF rest]
  show ?case using a b by auto
qed

text \<open>
  C10.  With a stride \<open>skips > 1\<close>, every window length \<open>i \<ge> 10\<close> inside the output that
  the stride steps over (\<open>(i - 10) mod skips \<noteq> 0\<close>) keeps the zero it was initialised
  with, in \<open>anomModels\<close> (entries \<open>Ds[i]\<close>, \<open>alphas[i]\<close>) and in \<open>anomModelsN\<close> (entries
  \<open>Ds[i, t]\<close>, \<open>alphas[i, t]\<close> of every trajectory \<open>t\<close>): the same value as below the
  10-point minimum.
\<close>

theorem skipped_windows_stay_zero:
  assumes s: "1 < skips" and i: "10 \<le> i" and m: "(int i - 10) mod skips \<noteq> 0"
  shows "(anomModels cf MSD dt skips = Inr (Ds, alphas) \<and> i < length MSD \<longrightarrow>
            Ds ! i = Fin 0 \<and> alphas ! i = Fin 0) \<and>
         (anomModelsN cf M dt skips = Inr (DsN, alphasN) \<and> i < nrows M \<and> t < ncols M \<longrightarrow>
            DsN ! i ! t = Fin 0 \<and> alphasN ! i ! t = Fin 0)"
proof -
  have one: "Ds ! i = Fin 0 \<and> alphas ! i = Fin 0"
    if a: "anomModels cf MSD dt skips = Inr (Ds, alphas) \<and> i < length MSD"
  proof -
  have s0: "0 < skips" using s by simp
  have "\<not> window_fitted (length MSD) skips i" using m by (simp add: window_fitted_def)
  moreover have "\<forall>Ds alphas. anomModels cf MSD dt skips = Inr (Ds, alphas) \<longrightarrow>
            length Ds = length MSD \<and> length alphas = length MSD \<and>
            (\<forall>i<length MSD.
               if window_fitted (length MSD) skips i
               then fit_window cf dt MSD i = Inr (Ds ! i, alphas ! i)
               else Ds ! i = Fin 0 \<and> alphas ! i = Fin 0)"
    using anomModels_behaviour [OF s0, of MSD cf dt] by blast
  ultimately show "Ds ! i = Fin 0 \<and> alphas ! i = Fin 0" using a by auto
  qed
  have two: "DsN ! i ! t = Fin 0 \<and> alphasN ! i ! t = Fin 0"
    if a: "anomModelsN cf M dt skips = Inr (DsN, alphasN) \<and> i < nrows M \<and> t < ncols M"
  proof -
  have s0: "0 < skips" using s by simp
  obtain fs where r: "py_range 10 (int (nrows M)) skips = Inr fs"
    and mem: "set fs = {j. 10 \<le> j \<and> j < int (nrows M) \<and> (j - 10) mod skips = 0}"
    using py_range_pos [OF s0, of 10 "int (nrows M)"] by blast
  have nn: "\<forall>f\<in>set fs. 0 \<le> f" by (auto simp: mem)
  have notin: "int i \<notin> set fs" using m by (simp add: mem)
  from a have "anomModelsN_loop cf dt skips (linspace1 (nrows M)) M [0..<ncols M]
      (replicate (nrows M) (replicate (ncols M) (Fin 0)),
       replicate (nrows M) (replicate (ncols M) (Fin 0))) = Inr (DsN, alphasN)"
    by (simp add: anomModelsN_def Let_def)
  from anomModelsN_loop_rows [OF this r nn] notin
  have "DsN ! i = replicate (nrows M) (replicate (ncols M) (Fin 0)) ! i"
       "alphasN ! i = replicate (nrows M) (replicate (ncols M) (Fin 0)) ! i"
    by simp_all
  then show "DsN ! i ! t = Fin 0 \<and> alphasN ! i ! t = Fin 0" using a by simp
  qed
  from one two show ?thesis by blast
qed

theorem skipped_windows_stay_zero_witness:
  "anomModels fit_checked (replicate 13 (Fin 1)) (Fin 1) 2
     = Inr (replicate 10 (Fin 0) @ [Fin 10, Fin 0, Fin 12],
            replicate 10 (Fin 0) @ [Fin 1, Fin 0, Fin 1]) \<and>
   (replicate 10 (Fin 0) @ [Fin 10, Fin 0, Fin 12]) ! 11 = Fin 0 \<and>
   (replicate 10 (Fin 0) @ [Fin 1, Fin 0, Fin 1]) ! 11 = Fin 0 \<and>
   anomModelsN fit_checked \<lparr>ncols = 2, rows = replicate 13 [Fin 1, Fin 2]\<rparr> (Fin 1) 2
     = Inr (replicate 10 [Fin 0, Fin 0] @ [[Fin 10, Fin 10], [Fin 0, Fin 0], [Fin 12, Fin 12]],
            replicate 10 [Fin 0, Fin 0] @ [[Fin 1, Fin 1], [Fin 0, Fin 0], [Fin 1, Fin 1]]) \<and>
   (replicate 10 [Fin 0, Fin 0] @ [[Fin 10, Fin 10], [Fin 0, Fin 0], [Fin 12, Fin 12]]) ! 11 ! 1
     = Fin 0 \<and>
   (replicate 10 [Fin 0, Fin 0] @ [[Fin 1, Fin 1], [Fin 0, Fin 0], [Fin 1, Fin 1]]) ! 11 ! 1
     = Fin 0"
proof -
  have e1: "anomModels fit_checked (replicate 13 (Fin 1)) (Fin 1) 2
     = Inr (replicate 10 (Fin 0) @ [Fin 10, Fin 0, Fin 12],
            replicate 10 (Fin 0) @ [Fin 1, Fin 0, Fin 1])"
    by code_simp
  have e2: "anomModelsN fit_checked \<lparr>ncols = 2, rows = replicate 13 [Fin 1, Fin 2]\<rparr> (Fin 1) 2
     = Inr (replicate 10 [Fin 0, Fin 0] @ [[Fin 10, Fin 10], [Fin 0, Fin 0], [Fin 12, Fin 12]],
            replicate 10 [Fin 0, Fin 0] @ [[Fin 1, Fin 1], [Fin 0, Fin 0], [Fin 1, Fin 1]])"
    by code_simp
  have h: "(1::int) < 2" "(10::nat) \<le> 11" "(int 11 - 10) mod 2 \<noteq> 0" by simp_all
  note th = skipped_windows_stay_zero [OF h,
      where cf = fit_checked and MSD = "replicate 13 (Fin 1)" and dt = "Fin 1"
        and Ds = "replicate 10 (Fin 0) @ [Fin 10, Fin 0, Fin 12]"
        and alphas = "replicate 10 (Fin 0) @ [Fin 1, Fin 0, Fin 1]"
        and M = "\<lparr>ncols = 2, rows = replicate 13 [Fin 1, Fin 2]\<rparr>"
        and DsN = "replicate 10 [Fin 0, Fin 0] @ [[Fin 10, Fin 10], [Fin 0, Fin 0], [Fin 12, Fin 12]]"
        and alphasN = "replicate 10 [Fin 0, Fin 0] @ [[Fin 1, Fin 1], [Fin 0, Fin 0], [Fin 1, Fin 1]]"
        and t = 1]
  from th e1 e2 show ?thesis by (simp add: nrows_def)
qed

subsection \<open>Batch loops and failing columns\<close>

lemma aspectRatios_loop_first_failure:
  assumes "\<forall>j\<in>set pre. \<exists>r. aspect_of_col mbr x y j = Inr r"
    and "aspect_of_col mbr x y i = Inl e"
  shows "aspectRatios_loop mbr x y (pre @ i # post) (ars, elongs) = Inl e"
  using assms
proof (induction pre arbitrary: ars elongs)
  case Nil
  then show ?case by (auto simp: aspect_of_col_def split: sum.splits)
next
  case (Cons j pre)
  then show ?case by (auto simp: aspect_of_col_def split: sum.splits)
qed

lemma aspectRatios_loop_all_succeed:
  assumes "\<forall>j\<in>set cols. \<exists>r. aspect_of_col mbr x y j = Inr r"
    and "distinct cols" and "\<forall>j\<in>set cols. j < length ars \<and> j < length elongs"
  shows "\<exists>ars' elongs'. aspectRatios_loop mbr x y cols (ars, elongs) = Inr (ars', elongs') \<and>
           length ars' = length ars \<and> length elongs' = length elongs \<and>
           (\<forall>j\<in>set cols. aspect_of_col mbr x y j = Inr (ars' ! j, elongs' ! j)) \<and>
           (\<forall>j. j \<notin> set cols \<longrightarrow> ars' ! j = ars ! j \<and> elongs' ! j = elongs ! j)"
  using assms
proof (induction cols arbitrary: ars elongs)
  case Nil
  then show ?case by simp
next
  case (Cons i cols)
  obtain r where r: "aspect_of_col mbr x y i = Inr r" using Cons.prems(1) by auto
  let ?a = "ars[i := fst r]" and ?e = "elongs[i := snd r]"
  have "\<exists>ars' elongs'. aspectRatios_loop mbr x y cols (?a, ?e) = Inr (ars', elongs') \<and>
           length ars' = length ?a \<and> length elongs' = length ?e \<and>
           (\<forall>j\<in>set cols. aspect_of_col mbr x y j = Inr (ars' ! j, elongs' ! j)) \<and>
           (\<forall>j. j \<notin> set cols \<longrightarrow> ars' ! j = ?a ! j \<and> elongs' ! j = ?e ! j)"
    using Cons.prems by (intro Cons.IH) simp_all
  then obtain ars' elongs' where
    l: "aspectRatios_loop mbr x y cols (?a, ?e) = Inr (ars', elongs')"
    and len: "length ars' = length ars" "length elongs' = length elongs"
    and ok: "\<forall>j\<in>set cols. aspect_of_col mbr x y j = Inr (ars' ! j, elongs' ! j)"
    and keep: "\<forall>j. j \<notin> set cols \<longrightarrow> ars' ! j = ?a ! j \<and> elongs' ! j = ?e ! j"
    by auto
  have step: "aspectRatios_loop mbr x y (i # cols) (ars, elongs) = Inr (ars', elongs')"
    using r l by (auto simp: aspect_of_col_def split: sum.splits)
  have i: "i \<notin> set cols" "i < length ars" "i < length elongs" using Cons.prems by simp_all
  have "ars' ! i = fst r" "elongs' ! i = snd r" using keep i by simp_all
  then have "aspect_of_col mbr x y i = Inr (ars' ! i, elongs' ! i)" using r by simp
  moreover have "\<forall>j. j \<notin> set (i # cols) \<longrightarrow> ars' ! j = ars ! j \<and> elongs' ! j = elongs ! j"
    using keep by auto
  ultimately show ?case using step len ok by auto
qed

lemma anomModelN_loop_first_failure:
  assumes "\<forall>j\<in>set pre. \<exists>r. fit_of_col cf MSD dt frame j = Inr r"
    and "fit_of_col cf MSD dt frame i = Inl e"
  shows "anomModelN_loop cf dt frame (linspace1 (nrows MSD)) MSD (pre @ i # post) (Ds, alphas)
           = Inl e"
  using assms
proof (induction pre arbitrary: Ds alphas)
  case Nil
  then show ?case by (simp add: fit_of_col_def)
next
  case (Cons j pre)
  then show ?case by (auto simp: fit_of_col_def split: sum.splits)
qed

lemma anomModelN_loop_all_succeed:
  assumes "\<forall>j\<in>set cols. \<exists>r. fit_of_col cf MSD dt frame j = Inr r"
    and "distinct cols" and "\<forall>j\<in>set cols. j < length Ds \<and> j < length alphas"
  shows "\<exists>Ds' alphas'.
           anomModelN_loop cf dt frame (linspace1 (nrows MSD)) MSD cols (Ds, alphas)
             = Inr (Ds', alphas') \<and>
           length Ds' = length Ds \<and> length alphas' = length alphas \<and>
           (\<forall>j\<in>set cols. fit_of_col cf MSD dt frame j = Inr (Ds' ! j, alphas' ! j)) \<and>
           (\<forall>j. j \<notin> set cols \<longrightarrow> Ds' ! j = Ds ! j \<and> alphas' ! j = alphas ! j)"
  using assms
proof (induction cols arbitrary: Ds alphas)
  case Nil
  then show ?case by simp
next
  case (Cons i cols)
  obtain r where r: "fit_of_col cf MSD dt frame i = Inr r" using Cons.prems(1) by auto
  let ?a = "Ds[i := fst r]" and ?e = "alphas[i := snd r]"
  have "\<exists>Ds' alphas'.
           anomModelN_loop cf dt frame (linspace1 (nrows MSD)) MSD cols (?a, ?e)
             = Inr (Ds', alphas') \<and>
           length Ds' = length ?a \<and> length alphas' = length ?e \<and>
           (\<forall>j\<in>set cols. fit_of_col cf MSD dt frame j = Inr (Ds' ! j, alphas' ! j)) \<and>
           (\<forall>j. j \<notin> set cols \<longrightarrow> Ds' ! j = ?a ! j \<and> alphas' ! j = ?e ! j)"
    using Cons.prems by (intro Cons.IH) simp_all
  then obtain Ds' alphas' where
    l: "anomModelN_loop cf dt frame (linspace1 (nrows MSD)) MSD cols (?a, ?e) = Inr (Ds', alphas')"
    and len: "length Ds' = length Ds" "length alphas' = length alphas"
    and ok: "\<forall>j\<in>set cols. fit_of_col cf MSD dt frame j = Inr (Ds' ! j, alphas' ! j)"
    and keep: "\<forall>j. j \<notin> set cols \<longrightarrow> Ds' ! j = ?a ! j \<and> alphas' ! j = ?e ! j"
    by auto
  have step: "anomModelN_loop cf dt frame (linspace1 (nrows MSD)) MSD (i # cols) (Ds, alphas)
      = Inr (Ds', alphas')"
    using r l by (simp add: fit_of_col_def)
  have i: "i \<notin> set cols" "i < length Ds" "i < length alphas" using Cons.prems by simp_all
  have "Ds' ! i = fst r" "alphas' ! i = snd r" using keep i by simp_all
  then have "fit_of_col cf MSD dt frame i = Inr (Ds' ! i, alphas' ! i)" using r by simp
  moreover have "\<forall>j. j \<notin> set (i # cols) \<longrightarrow> Ds' ! j = Ds ! j \<and> alphas' ! j = alphas ! j"
    using keep by auto
  ultimately show ?case using step len ok by auto
qed

lemma upt_split_at: "i < N \<Longrightarrow> [0..<N] = [0..<i] @ i # [Suc i..<N]"
  by (metis le_add1 le_add_same_cancel1 less_imp_add_positive upt_add_eq_append upt_conv_Cons)

text \<open>
  C1 (amended).  A batch function stops at the first trajectory column whose
  computation fails and the whole call fails with that column's error: nothing is
  recorded and no result of another column is returned.  It returns exactly when the
  computation of every column succeeds, and then the entries at index \<open>j\<close> are the results
  of column \<open>j\<close>.  Shown for \<open>aspectRatios\<close> and \<open>anomModelN\<close>.
\<close>

theorem batch_fails_at_first_failing_column:
  "(i < ncols x \<and> aspect_of_col mbr x y i = Inl e \<and>
      (\<forall>j<i. \<exists>r. aspect_of_col mbr x y j = Inr r)
      \<longrightarrow> aspectRatios mbr x y = Inl e) \<and>
   (i < ncols MSD \<and> fit_of_col cf MSD dt frame i = Inl e \<and>
      (\<forall>j<i. \<exists>r. fit_of_col cf MSD dt frame j = Inr r)
      \<longrightarrow> anomModelN cf MSD dt frame = Inl e) \<and>
   ((\<forall>j<ncols x. \<exists>r. aspect_of_col mbr x y j = Inr r)
      \<longrightarrow> (\<exists>ars elongs. aspectRatios mbr x y = Inr (ars, elongs) \<and>
             length ars = ncols x \<and> length elongs = ncols x \<and>
             (\<forall>j<ncols x. aspect_of_col mbr x y j = Inr (ars ! j, elongs ! j)))) \<and>
   ((\<forall>j<ncols MSD. \<exists>r. fit_of_col cf MSD dt frame j = Inr r)
      \<longrightarrow> (\<exists>Ds alphas. anomModelN cf MSD dt frame = Inr (Ds, alphas) \<and>
             length Ds = ncols MSD \<and> length alphas = ncols MSD \<and>
             (\<forall>j<ncols MSD. fit_of_col cf MSD dt frame j = Inr (Ds ! j, alphas ! j))))"
proof -
  have a: "aspectRatios mbr x y = Inl e"
    if "i < ncols x" "aspect_of_col mbr x y i = Inl e"
      "\<forall>j<i. \<exists>r. aspect_of_col mbr x y j = Inr r"
  proof -
    have "\<forall>j\<in>set [0..<i]. \<exists>r. aspect_of_col mbr x y j = Inr r" using that(3) by simp
    from aspectRatios_loop_first_failure [OF this that(2)]
    show ?thesis by (simp add: aspectRatios_def Let_def upt_split_at [OF that(1)])
  qed
  have b: "anomModelN cf MSD dt frame = Inl e"
    if "i < ncols MSD" "fit_of_col cf MSD dt frame i = Inl e"
      "\<forall>j<i. \<exists>r. fit_of_col cf MSD dt frame j = Inr r"
  proof -
    have "\<forall>j\<in>set [0..<i]. \<exists>r. fit_of_col cf MSD dt frame j = Inr r" using that(3) by simp
    from anomModelN_loop_first_failure [OF this that(2)]
    show ?thesis by (simp add: anomModelN_def Let_def upt_split_at [OF that(1)])
  qed
  have c: "\<exists>ars elongs. aspectRatios mbr x y = Inr (ars, elongs) \<and>
             length ars = ncols x \<and> length elongs = ncols x \<and>
             (\<forall>j<ncols x. aspect_of_col mbr x y j = Inr (ars ! j, elongs ! j))"
    if "\<forall>j<ncols x. \<exists>r. aspect_of_col mbr x y j = Inr r"
    using aspectRatios_loop_all_succeed
      [of "[0..<ncols x]" mbr x y "replicate (ncols x) (Fin 0)" "replicate (ncols x) (Fin 0)"] that
    by (auto simp: aspectRatios_def Let_def)
  have d: "\<exists>Ds alphas. anomModelN cf MSD dt frame = Inr (Ds, alphas) \<and>
             length Ds = ncols MSD \<and> length alphas = ncols MSD \<and>
             (\<forall>j<ncols MSD. fit_of_col cf MSD dt frame j = Inr (Ds ! j, alphas ! j))"
    if "\<forall>j<ncols MSD. \<exists>r. fit_of_col cf MSD dt frame j = Inr r"
    using anomModelN_loop_all_succeed
      [of "[0..<ncols MSD]" cf MSD dt frame "replicate (ncols MSD) (Fin 0)"
          "replicate (ncols MSD) (Fin 0)"] that
    by (auto simp: anomModelN_def Let_def)
  from a b c d show ?thesis by blast
qed

text \<open>
  C1 as stated fails.  In a batch of three trajectories whose second column is a
  stationary point, the bounding rectangle of columns 0 and 2 is found and that of column
  1 raises; \<open>aspectRatios\<close> then raises as a whole and returns nothing for columns 0 and
  2.  Likewise \<open>anomModelN\<close> on three MSD columns whose second holds a not-a-number.
\<close>

theorem batch_partial_results_counterexample:
  "aspect_of_col hull_checked
     \<lparr>ncols = 3, rows = [[Fin 0, Fin 5, Fin 0], [Fin 1, Fin 5, Fin 2], [Fin 0, Fin 5, Fin 3]]\<rparr>
     \<lparr>ncols = 3, rows = [[Fin 0, Fin 5, Fin 0], [Fin 0, Fin 5, Fin 1], [Fin 1, Fin 5, Fin 5]]\<rparr> 0 = Inr (Fin 2, Fin (1 / 2)) \<and>
   aspect_of_col hull_checked
     \<lparr>ncols = 3, rows = [[Fin 0, Fin 5, Fin 0], [Fin 1, Fin 5, Fin 2], [Fin 0, Fin 5, Fin 3]]\<rparr>
     \<lparr>ncols = 3, rows = [[Fin 0, Fin 5, Fin 0], [Fin 0, Fin 5, Fin 1], [Fin 1, Fin 5, Fin 5]]\<rparr> 1 = Inl QhullError \<and>
   aspect_of_col hull_checked
     \<lparr>ncols = 3, rows = [[Fin 0, Fin 5, Fin 0], [Fin 1, Fin 5, Fin 2], [Fin 0, Fin 5, Fin 3]]\<rparr>
     \<lparr>ncols = 3, rows = [[Fin 0, Fin 5, Fin 0], [Fin 0, Fin 5, Fin 1], [Fin 1, Fin 5, Fin 5]]\<rparr> 2 = Inr (Fin 2, Fin (1 / 2)) \<and>
   aspectRatios hull_checked
     \<lparr>ncols = 3, rows = [[Fin 0, Fin 5, Fin 0], [Fin 1, Fin 5, Fin 2], [Fin 0, Fin 5, Fin 3]]\<rparr>
     \<lparr>ncols = 3, rows = [[Fin 0, Fin 5, Fin 0], [Fin 0, Fin 5, Fin 1], [Fin 1, Fin 5, Fin 5]]\<rparr> = Inl QhullError \<and>
   fit_of_col fit_checked \<lparr>ncols = 3, rows = [[Fin 1, Fin 1, Fin 2], [Fin 2, NaN, Fin 4]]\<rparr> (Fin 1) 100 0
     = Inr (Fin 2, Fin 1) \<and>
   fit_of_col fit_checked \<lparr>ncols = 3, rows = [[Fin 1, Fin 1, Fin 2], [Fin 2, NaN, Fin 4]]\<rparr> (Fin 1) 100 1
     = Inl ValueError \<and>
   fit_of_col fit_checked \<lparr>ncols = 3, rows = [[Fin 1, Fin 1, Fin 2], [Fin 2, NaN, Fin 4]]\<rparr> (Fin 1) 100 2
     = Inr (Fin 2, Fin 1) \<and>
   anomModelN fit_checked \<lparr>ncols = 3, rows = [[Fin 1, Fin 1, Fin 2], [Fin 2, NaN, Fin 4]]\<rparr> (Fin 1) 100
     = Inl ValueError"
  by code_simp

theorem batch_fails_at_first_failing_column_witness:
  "aspectRatios hull_checked
     \<lparr>ncols = 3, rows = [[Fin 0, Fin 5, Fin 0], [Fin 1, Fin 5, Fin 2], [Fin 0, Fin 5, Fin 3]]\<rparr>
     \<lparr>ncols = 3, rows = [[Fin 0, Fin 5, Fin 0], [Fin 0, Fin 5, Fin 1], [Fin 1, Fin 5, Fin 5]]\<rparr> = Inl QhullError \<and>
   anomModelN fit_checked \<lparr>ncols = 3, rows = [[Fin 1, Fin 1, Fin 2], [Fin 2, NaN, Fin 4]]\<rparr> (Fin 1) 100
     = Inl ValueError \<and>
   (\<exists>Ds alphas. anomModelN fit_checked \<lparr>ncols = 2, rows = [[Fin 1, Fin 2], [Fin 2, Fin 4]]\<rparr> (Fin 1) 100
       = Inr (Ds, alphas) \<and> length Ds = 2 \<and>
     fit_of_col fit_checked \<lparr>ncols = 2, rows = [[Fin 1, Fin 2], [Fin 2, Fin 4]]\<rparr> (Fin 1) 100 1
       = Inr (Ds ! 1, alphas ! 1))"
proof -
  have a0: "aspect_of_col hull_checked
     \<lparr>ncols = 3, rows = [[Fin 0, Fin 5, Fin 0], [Fin 1, Fin 5, Fin 2], [Fin 0, Fin 5, Fin 3]]\<rparr>
     \<lparr>ncols = 3, rows = [[Fin 0, Fin 5, Fin 0], [Fin 0, Fin 5, Fin 1], [Fin 1, Fin 5, Fin 5]]\<rparr> 0 = Inr (Fin 2, Fin (1 / 2))"
    by code_simp
  have a1: "aspect_of_col hull_checked
     \<lparr>ncols = 3, rows = [[Fin 0, Fin 5, Fin 0], [Fin 1, Fin 5, Fin 2], [Fin 0, Fin 5, Fin 3]]\<rparr>
     \<lparr>ncols = 3, rows = [[Fin 0, Fin 5, Fin 0], [Fin 0, Fin 5, Fin 1], [Fin 1, Fin 5, Fin 5]]\<rparr> 1 = Inl QhullError"
    by code_simp
  have f0: "fit_of_col fit_checked \<lparr>ncols = 3, rows = [[Fin 1, Fin 1, Fin 2], [Fin 2, NaN, Fin 4]]\<rparr> (Fin 1) 100 0 = Inr (Fin 2, Fin 1)"
    by code_simp
  have f1: "fit_of_col fit_checked \<lparr>ncols = 3, rows = [[Fin 1, Fin 1, Fin 2], [Fin 2, NaN, Fin 4]]\<rparr> (Fin 1) 100 1 = Inl ValueError"
    by code_simp
  have g0: "fit_of_col fit_checked \<lparr>ncols = 2, rows = [[Fin 1, Fin 2], [Fin 2, Fin 4]]\<rparr> (Fin 1) 100 0 = Inr (Fin 2, Fin 1)"
    and g1: "fit_of_col fit_checked \<lparr>ncols = 2, rows = [[Fin 1, Fin 2], [Fin 2, Fin 4]]\<rparr> (Fin 1) 100 1 = Inr (Fin 2, Fin 1)"
    by code_simp+
  have g: "\<forall>j<ncols \<lparr>ncols = 2, rows = [[Fin 1, Fin 2], [Fin 2, Fin 4]]\<rparr>.
      \<exists>r. fit_of_col fit_checked \<lparr>ncols = 2, rows = [[Fin 1, Fin 2], [Fin 2, Fin 4]]\<rparr> (Fin 1) 100 j = Inr r"
    using g0 g1 by (auto simp: less_Suc_eq numeral_2_eq_2)
  note th1 = batch_fails_at_first_failing_column
      [where x = "\<lparr>ncols = 3, rows = [[Fin 0, Fin 5, Fin 0], [Fin 1, Fin 5, Fin 2], [Fin 0, Fin 5, Fin 3]]\<rparr>"
         and y = "\<lparr>ncols = 3, rows = [[Fin 0, Fin 5, Fin 0], [Fin 0, Fin 5, Fin 1], [Fin 1, Fin 5, Fin 5]]\<rparr>"
         and mbr = hull_checked and i = 1 and e = QhullError and cf = fit_checked
         and MSD = "\<lparr>ncols = 2, rows = [[Fin 1, Fin 2], [Fin 2, Fin 4]]\<rparr>" and dt = "Fin 1" and frame = 100]
  note th2 = batch_fails_at_first_failing_column
      [where x = "\<lparr>ncols = 3, rows = [[Fin 0, Fin 5, Fin 0], [Fin 1, Fin 5, Fin 2], [Fin 0, Fin 5, Fin 3]]\<rparr>"
         and y = "\<lparr>ncols = 3, rows = [[Fin 0, Fin 5, Fin 0], [Fin 0, Fin 5, Fin 1], [Fin 1, Fin 5, Fin 5]]\<rparr>"
         and mbr = hull_checked and i = 1 and e = ValueError and cf = fit_checked
         and MSD = "\<lparr>ncols = 3, rows = [[Fin 1, Fin 1, Fin 2], [Fin 2, NaN, Fin 4]]\<rparr>" and dt = "Fin 1" and frame = 100]
  have r1: "aspectRatios hull_checked
     \<lparr>ncols = 3, rows = [[Fin 0, Fin 5, Fin 0], [Fin 1, Fin 5, Fin 2], [Fin 0, Fin 5, Fin 3]]\<rparr>
     \<lparr>ncols = 3, rows = [[Fin 0, Fin 5, Fin 0], [Fin 0, Fin 5, Fin 1], [Fin 1, Fin 5, Fin 5]]\<rparr> = Inl QhullError"
    using th1 a0 a1 by simp
  have r2: "anomModelN fit_checked \<lparr>ncols = 3, rows = [[Fin 1, Fin 1, Fin 2], [Fin 2, NaN, Fin 4]]\<rparr> (Fin 1) 100 = Inl ValueError"
    using th2 f0 f1 by simp
  have r3: "\<exists>Ds alphas. anomModelN fit_checked \<lparr>ncols = 2, rows = [[Fin 1, Fin 2], [Fin 2, Fin 4]]\<rparr> (Fin 1) 100
       = Inr (Ds, alphas) \<and> length Ds = 2 \<and>
     fit_of_col fit_checked \<lparr>ncols = 2, rows = [[Fin 1, Fin 2], [Fin 2, Fin 4]]\<rparr> (Fin 1) 100 1
       = Inr (Ds ! 1, alphas ! 1)"
    using th1 g by fastforce
  from r1 r2 r3 show ?thesis by blast
qed

subsection \<open>Efficiency and straightness of one trajectory\<close>

lemma on_ok_simps [simp]: "on_ok (Inl e) f = Inl e" "on_ok (Inr v) f = f v"
  by (simp_all add: on_ok_def)

lemma getitem_last: "xs \<noteq> [] \<Longrightarrow> getitem xs (- 1) = Inr (last xs)"
  by (cases xs rule: rev_cases) (simp_all add: getitem_def py_index_def)

lemma getitem_first: "xs \<noteq> [] \<Longrightarrow> getitem xs 0 = Inr (hd xs)"
  by (cases xs) (simp_all add: getitem_def py_index_def)


lemma np_diff_Fin: "np_diff (map Fin xr) = map Fin (rdiff xr)"
proof -
  have "map2 np_sub (map Fin as) (map Fin bs) = map Fin (map2 (\<lambda>a b. a - b) as bs)" for as bs
    by (induction as bs rule: list_induct2') (simp_all add: np_sub_def)
  then show ?thesis
    unfolding np_diff_def rdiff_def map_tl [symmetric] map_butlast [symmetric] .
qed

lemma length_rdiff: "length (rdiff xs) = length xs - 1"
  by (simp add: rdiff_def)

lemma broadcast1_same: "length xs = n \<Longrightarrow> broadcast1 n xs = xs"
  by (cases xs) (auto simp: broadcast1_def)

lemma ew1_same: "length xs = length ys \<Longrightarrow> ew1 f xs ys = Inr (map2 f xs ys)"
  by (simp add: ew1_def bshape_def broadcast1_same)

lemma steps_Fin:
  assumes "length xr = length yr"
  shows "ew1 np_add (map np_sq (np_diff (map Fin xr))) (map np_sq (np_diff (map Fin yr)))
           = Inr (map Fin (step_sq xr yr))"
proof -
  have "map2 np_add (map np_sq (map Fin as)) (map np_sq (map Fin bs))
          = map Fin (map2 (\<lambda>dx dy. dx * dx + dy * dy) as bs)" for as bs
    by (induction as bs rule: list_induct2') (simp_all add: np_sq_def)
  then show ?thesis using assms
    by (simp add: np_diff_Fin ew1_same length_rdiff step_sq_def)
qed

lemma np_sum_Fin: "np_sum (map Fin zs) = Fin (sum_list zs)"
proof -
  have "foldl np_add (Fin a) (map Fin zs) = Fin (a + sum_list zs)" for a
    by (induction zs arbitrary: a) (simp_all add: add.assoc)
  then show ?thesis by (simp add: np_sum_def)
qed

lemma step_sq_nonneg: "z \<in> set (step_sq xr yr) \<Longrightarrow> 0 \<le> z"
  by (auto simp: step_sq_def set_zip)

lemma sqrt_steps_Fin: "map np_sqrt (map Fin (step_sq xr yr)) = map Fin (map sqrt (step_sq xr yr))"
  using step_sq_nonneg [of _ xr yr] by (induction "step_sq xr yr") auto

lemma net_sq_nonneg: "0 \<le> net_sq xr yr"
  by (simp add: net_sq_def)

lemma efficiency_finite:
  assumes "length xr = length yr" and "xr \<noteq> []"
  shows "efficiency (map Fin xr) (map Fin yr)
           = Inr (np_div (Fin (net_sq xr yr)) (Fin (sum_list (step_sq xr yr))))"
proof -
  have y: "yr \<noteq> []" using assms by auto
  show ?thesis
    using assms(2) y
    by (simp add: efficiency_def getitem_last getitem_first steps_Fin [OF assms(1)] np_sum_Fin
        last_map hd_map np_sub_def np_sq_def net_sq_def Let_def)
qed

lemma net_Fin:
  "np_add (np_sq (np_sub (Fin xl) (Fin x0))) (np_sq (np_sub (Fin yl) (Fin y0)))
     = Fin ((xl - x0) * (xl - x0) + (yl - y0) * (yl - y0))"
  by (simp add: np_sub_def np_sq_def)

lemma np_sqrt_Fin: "0 \<le> a \<Longrightarrow> np_sqrt (Fin a) = Fin (sqrt a)"
  by simp

lemma straight_finite:
  assumes "length xr = length yr" and "xr \<noteq> []"
  shows "straight (map Fin xr) (map Fin yr)
           = Inr (np_div (Fin (sqrt (net_sq xr yr))) (Fin (sum_list (map sqrt (step_sq xr yr)))))"
proof -
  have y: "yr \<noteq> []" using assms by auto
  have g: "getitem (map Fin xr) (- 1) = Inr (Fin (last xr))"
      "getitem (map Fin xr) 0 = Inr (Fin (hd xr))"
      "getitem (map Fin yr) (- 1) = Inr (Fin (last yr))"
      "getitem (map Fin yr) 0 = Inr (Fin (hd yr))"
    using assms(2) y by (simp_all add: getitem_last getitem_first last_map hd_map)
  have n: "np_sqrt (Fin (net_sq xr yr)) = Fin (sqrt (net_sq xr yr))"
    by (rule np_sqrt_Fin [OF net_sq_nonneg])
  show ?thesis
    unfolding straight_def Let_def g on_ok_simps net_Fin steps_Fin [OF assms(1)]
      sqrt_steps_Fin np_sum_Fin
    unfolding net_sq_def [symmetric] n ..
qed

lemma sum_rdiff: "xs \<noteq> [] \<Longrightarrow> sum_list (rdiff xs) = last xs - hd xs"
proof (induction xs rule: induct_list012)
  case 1
  then show ?case by simp
next
  case (2 x)
  then show ?case by (simp add: rdiff_def)
next
  case (3 x y zs)
  then show ?case by (simp add: rdiff_def)
qed

lemma path_triangle:
  "sqrt (len2 (sum_fst zs, sum_snd zs)) \<le> sum_list (map (\<lambda>z. sqrt (len2 z)) zs)"
proof (induction zs)
  case Nil
  then show ?case by (simp add: len2_def sum_fst_def sum_snd_def)
next
  case (Cons z zs)
  have "sqrt (len2 (sum_fst (z # zs), sum_snd (z # zs)))
      = sqrt ((fst z + sum_fst zs)\<^sup>2 + (snd z + sum_snd zs)\<^sup>2)"
    by (simp add: len2_def sum_fst_def sum_snd_def power2_eq_square)
  also have "\<dots> \<le> sqrt ((fst z)\<^sup>2 + (snd z)\<^sup>2) + sqrt ((sum_fst zs)\<^sup>2 + (sum_snd zs)\<^sup>2)"
    by (rule real_sqrt_sum_squares_triangle_ineq)
  also have "\<dots> = sqrt (len2 z) + sqrt (len2 (sum_fst zs, sum_snd zs))"
    by (simp add: len2_def power2_eq_square)
  finally show ?case using Cons.IH by simp
qed

lemma sum_squares_le:
  "(sum_list ps)\<^sup>2 \<le> real (length ps) * sum_list (map (\<lambda>p. p * p) ps)"
proof (induction ps)
  case Nil
  then show ?case by simp
next
  case (Cons p ps)
  let ?P = "sum_list ps" and ?Q = "sum_list (map (\<lambda>p. p * p) ps)" and ?n = "real (length ps)"
  have Q: "0 \<le> ?Q" by (rule sum_list_nonneg) auto
  have "0 \<le> ?n * (?n * p\<^sup>2 - 2 * p * ?P + ?Q)"
  proof -
    have "0 \<le> (?n * p - ?P)\<^sup>2" by simp
    also have "\<dots> = ?n * (?n * p\<^sup>2 - 2 * p * ?P) + ?P\<^sup>2"
      by (simp add: power2_eq_square algebra_simps)
    also have "\<dots> \<le> ?n * (?n * p\<^sup>2 - 2 * p * ?P) + ?n * ?Q" using Cons.IH by simp
    finally show ?thesis by (simp add: algebra_simps)
  qed
  then have k: "0 \<le> ?n * p\<^sup>2 - 2 * p * ?P + ?Q"
  proof (cases "length ps = 0")
    case True
    then show ?thesis by simp
  next
    case False
    then have "0 < ?n" by simp
    with \<open>0 \<le> ?n * (?n * p\<^sup>2 - 2 * p * ?P + ?Q)\<close> show ?thesis
      by (simp add: zero_le_mult_iff)
  qed
  have "(sum_list (p # ps))\<^sup>2 = p\<^sup>2 + 2 * p * ?P + ?P\<^sup>2"
    by (simp add: power2_eq_square algebra_simps)
  also have "\<dots> \<le> p\<^sup>2 + 2 * p * ?P + ?n * ?Q" using Cons.IH by simp
  also have "\<dots> \<le> p\<^sup>2 + 2 * p * ?P + ?n * ?Q + (?n * p\<^sup>2 - 2 * p * ?P + ?Q)" using k by simp
  also have "\<dots> = real (length (p # ps)) * sum_list (map (\<lambda>p. p * p) (p # ps))"
    by (simp add: power2_eq_square algebra_simps)
  finally show ?case .
qed

lemma proj_le_len:
  fixes A B p q :: real
  shows "A * p + B * q \<le> sqrt (A * A + B * B) * sqrt (p * p + q * q)"
proof -
  have "(A * p + B * q)\<^sup>2 \<le> (A * A + B * B) * (p * p + q * q)"
  proof -
    have "(A * A + B * B) * (p * p + q * q) - (A * p + B * q)\<^sup>2 = (A * q - B * p)\<^sup>2"
      by (simp add: power2_eq_square algebra_simps)
    moreover have "0 \<le> (A * q - B * p)\<^sup>2" by simp
    ultimately show ?thesis by linarith
  qed
  then have "\<bar>A * p + B * q\<bar> \<le> sqrt ((A * A + B * B) * (p * p + q * q))"
    by (metis real_le_rsqrt abs_le_square_iff real_sqrt_abs real_sqrt_le_iff)
  then show ?thesis by (simp add: real_sqrt_mult)
qed

lemma proj_eq_len:
  fixes A B p q :: real
  assumes L: "0 < sqrt (A * A + B * B)"
    and eq: "A * p + B * q = sqrt (A * A + B * B) * sqrt (p * p + q * q)"
  shows "p = (sqrt (p * p + q * q) / sqrt (A * A + B * B)) * A \<and>
         q = (sqrt (p * p + q * q) / sqrt (A * A + B * B)) * B"
proof -
  define L where "L = sqrt (A * A + B * B)"
  define s where "s = sqrt (p * p + q * q)"
  have LL: "L * L = A * A + B * B" by (simp add: L_def)
  have ss: "s * s = p * p + q * q" by (simp add: s_def)
  have Lpos: "0 < L" using L by (simp add: L_def)
  have eq': "A * p + B * q = L * s" using eq by (simp add: L_def s_def)
  have "(A * p + B * q)\<^sup>2 = (L * L) * (s * s)"
    unfolding eq' power2_eq_square by (simp add: algebra_simps)
  then have "(A * p + B * q)\<^sup>2 = (A * A + B * B) * (p * p + q * q)"
    unfolding LL ss .
  moreover have "(A * A + B * B) * (p * p + q * q) - (A * p + B * q)\<^sup>2 = (A * q - B * p)\<^sup>2"
    by (simp add: power2_eq_square algebra_simps)
  ultimately have c: "A * q = B * p" by simp
  have "(L * L) * p = A * (A * p + B * q)"
    unfolding LL using c by (simp add: algebra_simps)
  then have "L * (L * p) = L * (s * A)" unfolding eq' by (simp add: algebra_simps)
  then have p: "L * p = s * A" using Lpos by simp
  have "(L * L) * q = B * (A * p + B * q)"
    unfolding LL using c by (simp add: algebra_simps)
  then have "L * (L * q) = L * (s * B)" unfolding eq' by (simp add: algebra_simps)
  then have q: "L * q = s * B" using Lpos by simp
  from p q Lpos have "p = (s / L) * A \<and> q = (s / L) * B" by (simp add: field_simps)
  then show ?thesis unfolding L_def s_def .
qed

lemma sum_proj:
  "sum_list (map (\<lambda>z. A * fst z + B * snd z) zs) = A * sum_fst zs + B * sum_snd zs"
  by (induction zs) (simp_all add: sum_fst_def sum_snd_def algebra_simps)

lemma path_straight_iff:
  assumes T: "sum_list (map (\<lambda>z. sqrt (len2 z)) zs) \<noteq> 0"
  shows "sqrt (len2 (sum_fst zs, sum_snd zs)) = sum_list (map (\<lambda>z. sqrt (len2 z)) zs) \<longleftrightarrow>
         (\<forall>z\<in>set zs. \<exists>t\<ge>0. fst z = t * sum_fst zs \<and> snd z = t * sum_snd zs)"
proof
  define A where "A = sum_fst zs"
  define B where "B = sum_snd zs"
  define L where "L = sqrt (A * A + B * B)"
  define T where "T = sum_list (map (\<lambda>z. sqrt (len2 z)) zs)"
  assume "sqrt (len2 (sum_fst zs, sum_snd zs)) = sum_list (map (\<lambda>z. sqrt (len2 z)) zs)"
  then have LT: "L = T" by (simp add: L_def T_def A_def B_def len2_def)
  have "0 \<le> L" by (simp add: L_def)
  with LT T have Lpos: "0 < L" by (simp add: T_def)
  have LL: "L * L = A * A + B * B" by (simp add: L_def)
  have le: "A * fst z + B * snd z \<le> L * sqrt (len2 z)" for z
    unfolding L_def len2_def by (rule proj_le_len)
  have "sum_list (map (\<lambda>z. L * sqrt (len2 z) - (A * fst z + B * snd z)) zs)
      = L * T - (A * A + B * B)"
    by (simp add: sum_list_subtractf sum_list_const_mult sum_proj T_def A_def B_def)
  also have "\<dots> = 0" using LT LL by simp
  finally have z0: "sum_list (map (\<lambda>z. L * sqrt (len2 z) - (A * fst z + B * snd z)) zs) = 0" .
  have "\<forall>v\<in>set (map (\<lambda>z. L * sqrt (len2 z) - (A * fst z + B * snd z)) zs). v = 0"
    using z0 le by (subst sum_list_nonneg_eq_0_iff [symmetric]) auto
  then have each: "A * fst z + B * snd z = L * sqrt (len2 z)" if "z \<in> set zs" for z
    using that by auto
  show "\<forall>z\<in>set zs. \<exists>t\<ge>0. fst z = t * sum_fst zs \<and> snd z = t * sum_snd zs"
  proof
    fix z assume z: "z \<in> set zs"
    have e: "A * fst z + B * snd z = sqrt (A * A + B * B) * sqrt (fst z * fst z + snd z * snd z)"
      using each [OF z] by (simp add: L_def len2_def)
    have Lp: "0 < sqrt (A * A + B * B)" using Lpos by (simp add: L_def)
    from proj_eq_len [OF Lp e]
    have "fst z = (sqrt (fst z * fst z + snd z * snd z) / sqrt (A * A + B * B)) * A \<and>
          snd z = (sqrt (fst z * fst z + snd z * snd z) / sqrt (A * A + B * B)) * B" .
    moreover have "0 \<le> sqrt (fst z * fst z + snd z * snd z) / sqrt (A * A + B * B)"
      by simp
    ultimately show "\<exists>t\<ge>0. fst z = t * sum_fst zs \<and> snd z = t * sum_snd zs"
      unfolding A_def B_def by blast
  qed
next
  define A where "A = sum_fst zs"
  define B where "B = sum_snd zs"
  define L where "L = sqrt (A * A + B * B)"
  assume "\<forall>z\<in>set zs. \<exists>t\<ge>0. fst z = t * sum_fst zs \<and> snd z = t * sum_snd zs"
  then have "\<forall>z\<in>set zs. \<exists>t. 0 \<le> t \<and> fst z = t * A \<and> snd z = t * B"
    by (simp add: A_def B_def)
  then obtain t where t: "\<forall>z\<in>set zs. 0 \<le> t z \<and> fst z = t z * A \<and> snd z = t z * B"
    using bchoice [of "set zs" "\<lambda>z t. 0 \<le> t \<and> fst z = t * A \<and> snd z = t * B"] by blast
  define S where "S = sum_list (map t zs)"
  have len: "sqrt (len2 z) = t z * L" if "z \<in> set zs" for z
  proof -
    have "len2 z = (t z * t z) * (A * A + B * B)"
      using t that by (simp add: len2_def algebra_simps)
    then have "sqrt (len2 z) = sqrt (t z * t z) * L" by (simp add: real_sqrt_mult L_def)
    moreover have "sqrt (t z * t z) = t z" using t that by simp
    ultimately show ?thesis by simp
  qed
  have scale: "sum_list (map f zs) = S * c" if "\<And>z. z \<in> set zs \<Longrightarrow> f z = t z * c" for f c
  proof -
    have "map f zs = map (\<lambda>z. t z * c) zs" using that by simp
    then have "sum_list (map f zs) = sum_list (map (\<lambda>z. t z * c) zs)"
      by (rule arg_cong)
    also have "\<dots> = sum_list (map t zs) * c" by (rule sum_list_mult_const)
    finally show ?thesis by (simp add: S_def)
  qed
  have Tsum: "sum_list (map (\<lambda>z. sqrt (len2 z)) zs) = S * L"
    by (rule scale) (rule len)
  have SA: "A = S * A"
    using scale [of fst A] t by (simp add: A_def sum_fst_def)
  have SB: "B = S * B"
    using scale [of snd B] t by (simp add: B_def sum_snd_def)
  have "L \<noteq> 0" using T Tsum by auto
  then have "A \<noteq> 0 \<or> B \<noteq> 0" by (auto simp: L_def)
  with SA SB have "S = 1" by auto
  with Tsum show "sqrt (len2 (sum_fst zs, sum_snd zs)) = sum_list (map (\<lambda>z. sqrt (len2 z)) zs)"
    by (simp add: L_def A_def B_def len2_def)
qed

lemma step_sq_len2: "step_sq xr yr = map len2 (rsteps xr yr)"
  by (simp add: step_sq_def rsteps_def len2_def case_prod_unfold)

lemma sums_rsteps:
  assumes "length xr = length yr" and "xr \<noteq> []"
  shows "sum_fst (rsteps xr yr) = last xr - hd xr" "sum_snd (rsteps xr yr) = last yr - hd yr"
proof -
  have l: "length (rdiff xr) = length (rdiff yr)" using assms by (simp add: length_rdiff)
  have y: "yr \<noteq> []" using assms by auto
  show "sum_fst (rsteps xr yr) = last xr - hd xr"
    using l sum_rdiff [OF assms(2)] by (simp add: sum_fst_def rsteps_def)
  show "sum_snd (rsteps xr yr) = last yr - hd yr"
    using l sum_rdiff [OF y] by (simp add: sum_snd_def rsteps_def)
qed

lemma net_sq_len2:
  assumes "length xr = length yr" and "xr \<noteq> []"
  shows "net_sq xr yr = len2 (sum_fst (rsteps xr yr), sum_snd (rsteps xr yr))"
  by (simp add: sums_rsteps [OF assms] net_sq_def len2_def)

lemma sqrt_step_sq: "map sqrt (step_sq xr yr) = map (\<lambda>z. sqrt (len2 z)) (rsteps xr yr)"
  by (simp add: step_sq_len2)

lemma net_le_steps:
  assumes "length xr = length yr" and "xr \<noteq> []"
  shows "net_sq xr yr \<le> real (length xr - 1) * sum_list (step_sq xr yr)"
proof -
  let ?zs = "rsteps xr yr"
  have n: "length ?zs = length xr - 1" using assms by (simp add: rsteps_def length_rdiff)
  have "net_sq xr yr = (sum_list (map fst ?zs))\<^sup>2 + (sum_list (map snd ?zs))\<^sup>2"
    by (simp add: net_sq_len2 [OF assms] len2_def sum_fst_def sum_snd_def power2_eq_square)
  also have "\<dots> \<le> real (length (map fst ?zs)) * sum_list (map (\<lambda>p. p * p) (map fst ?zs))
               + real (length (map snd ?zs)) * sum_list (map (\<lambda>p. p * p) (map snd ?zs))"
    by (intro add_mono sum_squares_le)
  also have "\<dots> = real (length ?zs) * sum_list (map len2 ?zs)"
  proof -
    have "sum_list (map len2 zs) = sum_list (map (\<lambda>p. p * p) (map fst zs))
        + sum_list (map (\<lambda>p. p * p) (map snd zs))" for zs
      by (induction zs) (simp_all add: len2_def)
    then show ?thesis by (simp add: algebra_simps)
  qed
  finally show ?thesis by (simp add: n step_sq_len2)
qed

lemma sum_steps_nonneg: "0 \<le> sum_list (step_sq xr yr)"
  by (rule sum_list_nonneg) (rule step_sq_nonneg)

lemma sum_sqrt_steps_nonneg: "0 \<le> sum_list (map sqrt (step_sq xr yr))"
  by (rule sum_list_nonneg) (auto dest: step_sq_nonneg)

lemma sum_sqrt_steps_zero_iff:
  "sum_list (map sqrt (step_sq xr yr)) = 0 \<longleftrightarrow> sum_list (step_sq xr yr) = 0"
proof -
  have a: "sum_list (step_sq xr yr) = 0 \<longleftrightarrow> (\<forall>v\<in>set (step_sq xr yr). v = 0)"
    by (rule sum_list_nonneg_eq_0_iff) (auto dest: step_sq_nonneg)
  have b: "sum_list (map sqrt (step_sq xr yr)) = 0
      \<longleftrightarrow> (\<forall>v\<in>set (map sqrt (step_sq xr yr)). v = 0)"
    by (rule sum_list_nonneg_eq_0_iff) (auto dest: step_sq_nonneg)
  show ?thesis unfolding a b by auto
qed

lemma moving_nonempty: "sum_list (step_sq xr yr) \<noteq> 0 \<Longrightarrow> xr \<noteq> []"
  by (auto simp: step_sq_def rdiff_def)

lemma straight_line_iff:
  assumes len: "length xr = length yr" and mv: "sum_list (step_sq xr yr) \<noteq> 0"
  shows "sqrt (net_sq xr yr) = sum_list (map sqrt (step_sq xr yr)) \<longleftrightarrow> straight_line xr yr"
proof -
  have ne: "xr \<noteq> []" by (rule moving_nonempty [OF mv])
  have T: "sum_list (map (\<lambda>z. sqrt (len2 z)) (rsteps xr yr)) \<noteq> 0"
    using mv sum_sqrt_steps_zero_iff [of xr yr] by (simp add: sqrt_step_sq)
  show ?thesis
    using path_straight_iff [OF T]
    by (simp add: net_sq_len2 [OF len ne] sqrt_step_sq straight_line_def sums_rsteps [OF len ne])
qed

lemma path_values:
  assumes len: "length xr = length yr" and mv: "sum_list (step_sq xr yr) \<noteq> 0"
  shows "efficiency (map Fin xr) (map Fin yr)
           = Inr (Fin (net_sq xr yr / sum_list (step_sq xr yr)))"
    and "straight (map Fin xr) (map Fin yr)
           = Inr (Fin (sqrt (net_sq xr yr) / sum_list (map sqrt (step_sq xr yr))))"
proof -
  have ne: "xr \<noteq> []" by (rule moving_nonempty [OF mv])
  have T: "sum_list (map sqrt (step_sq xr yr)) \<noteq> 0"
    using mv sum_sqrt_steps_zero_iff [of xr yr] by simp
  show "efficiency (map Fin xr) (map Fin yr)
           = Inr (Fin (net_sq xr yr / sum_list (step_sq xr yr)))"
    using mv by (simp add: efficiency_finite [OF len ne])
  show "straight (map Fin xr) (map Fin yr)
           = Inr (Fin (sqrt (net_sq xr yr) / sum_list (map sqrt (step_sq xr yr))))"
    using T by (simp add: straight_finite [OF len ne])
qed

lemma line_scenario:
  "straight (map Fin [0, 1, 2, 3, 4, 5, 6, 7, 8, 9, 10]) (map Fin [0, 0, 0, 0, 0, 0, 0, 0, 0, 0, 0])
     = Inr (Fin 1)"
  "efficiency (map Fin [0, 1, 2, 3, 4, 5, 6, 7, 8, 9, 10]) (map Fin [0, 0, 0, 0, 0, 0, 0, 0, 0, 0, 0])
     = Inr (Fin 10)"
proof -
  have s: "sqrt 100 = 10" using real_sqrt_abs [of 10] by simp
  show "straight (map Fin [0, 1, 2, 3, 4, 5, 6, 7, 8, 9, 10])
          (map Fin [0, 0, 0, 0, 0, 0, 0, 0, 0, 0, 0]) = Inr (Fin 1)"
    by (subst straight_finite) (simp_all add: net_sq_def step_sq_def rdiff_def s)
  show "efficiency (map Fin [0, 1, 2, 3, 4, 5, 6, 7, 8, 9, 10])
          (map Fin [0, 0, 0, 0, 0, 0, 0, 0, 0, 0, 0]) = Inr (Fin 10)"
    by (subst efficiency_finite) (simp_all add: net_sq_def step_sq_def rdiff_def)
qed

text \<open>
  The two quotients over the reals.  With every operation exact, the value of \<open>straight\<close>
  lies in \<open>[0, 1]\<close> and is 1 exactly when every step is a non-negative multiple of the
  net displacement, and the value of \<open>efficiency\<close> lies in \<open>[0, n]\<close> for \<open>n\<close> steps.  The
  upper bounds and the case of equality are facts of exact arithmetic only: a
  floating-point quotient can exceed them by rounding.
\<close>

lemma exact_path_ranges:
  assumes len: "length xr = length yr" and mv: "sum_list (step_sq xr yr) \<noteq> 0"
  shows "(\<exists>e s. efficiency (map Fin xr) (map Fin yr) = Inr (Fin e) \<and>
            straight (map Fin xr) (map Fin yr) = Inr (Fin s) \<and>
            0 \<le> e \<and> e \<le> real (length xr - 1) \<and> 0 \<le> s \<and> s \<le> 1 \<and>
            (s = 1 \<longleftrightarrow> straight_line xr yr) \<and>
            (net_sq xr yr \<noteq> 0 \<longrightarrow> 0 < e \<and> 0 < s)) \<and>
         straight (map Fin [0, 1, 2, 3, 4, 5, 6, 7, 8, 9, 10])
           (map Fin [0, 0, 0, 0, 0, 0, 0, 0, 0, 0, 0]) = Inr (Fin 1) \<and>
         efficiency (map Fin [0, 1, 2, 3, 4, 5, 6, 7, 8, 9, 10])
           (map Fin [0, 0, 0, 0, 0, 0, 0, 0, 0, 0, 0]) = Inr (Fin 10)"
proof -
  define N where "N = net_sq xr yr"
  define Q where "Q = sum_list (step_sq xr yr)"
  define T where "T = sum_list (map sqrt (step_sq xr yr))"
  have ne: "xr \<noteq> []" by (rule moving_nonempty [OF mv])
  have Qpos: "0 < Q" using mv sum_steps_nonneg [of xr yr] by (simp add: Q_def)
  have Tpos: "0 < T"
    using mv sum_sqrt_steps_zero_iff [of xr yr] sum_sqrt_steps_nonneg [of xr yr]
    by (simp add: T_def)
  have N0: "0 \<le> N" by (simp add: N_def net_sq_nonneg)
  have NQ: "N \<le> real (length xr - 1) * Q"
    unfolding N_def Q_def by (rule net_le_steps [OF len ne])
  have NT: "sqrt N \<le> T"
    using path_triangle [of "rsteps xr yr"]
    by (simp add: N_def T_def net_sq_len2 [OF len ne] sqrt_step_sq)
  have eq: "sqrt N = T \<longleftrightarrow> straight_line xr yr"
    unfolding N_def T_def by (rule straight_line_iff [OF len mv])
  have e: "efficiency (map Fin xr) (map Fin yr) = Inr (Fin (N / Q))"
    and s: "straight (map Fin xr) (map Fin yr) = Inr (Fin (sqrt N / T))"
    unfolding N_def Q_def T_def by (rule path_values [OF len mv])+
  have "0 \<le> N / Q" using N0 Qpos by simp
  moreover have "N / Q \<le> real (length xr - 1)" using NQ Qpos by (simp add: field_simps)
  moreover have "0 \<le> sqrt N / T" using N0 Tpos by simp
  moreover have "sqrt N / T \<le> 1" using NT Tpos by simp
  moreover have "sqrt N / T = 1 \<longleftrightarrow> straight_line xr yr" using eq Tpos by auto
  moreover have "N \<noteq> 0 \<longrightarrow> 0 < N / Q \<and> 0 < sqrt N / T" using N0 Qpos Tpos by simp
  ultimately have "\<exists>e s. efficiency (map Fin xr) (map Fin yr) = Inr (Fin e) \<and>
            straight (map Fin xr) (map Fin yr) = Inr (Fin s) \<and>
            0 \<le> e \<and> e \<le> real (length xr - 1) \<and> 0 \<le> s \<and> s \<le> 1 \<and>
            (s = 1 \<longleftrightarrow> straight_line xr yr) \<and>
            (net_sq xr yr \<noteq> 0 \<longrightarrow> 0 < e \<and> 0 < s)"
    using e s unfolding N_def by blast
  with line_scenario show ?thesis by blast
qed

text \<open>
  C5 (amended).  For a trajectory with finite coordinates and at least one non-zero
  step, \<open>efficiency\<close> and \<open>straight\<close> both return a finite non-negative value, and a
  positive one when the net displacement is not zero.  Neither is confined to \<open>(0, 1]\<close>
  by the code: for the straight line from \<open>(0,0)\<close> to \<open>(10,0)\<close> over 11 equally spaced
  frames \<open>straight\<close> returns 1 and \<open>efficiency\<close> returns 10 (the squared net displacement
  100 over the ten squared unit steps).
\<close>

theorem efficiency_straight_positive:
  assumes len: "length xr = length yr" and mv: "sum_list (step_sq xr yr) \<noteq> 0"
  shows "(\<exists>e s. efficiency (map Fin xr) (map Fin yr) = Inr (Fin e) \<and>
            straight (map Fin xr) (map Fin yr) = Inr (Fin s) \<and>
            0 \<le> e \<and> 0 \<le> s \<and> (net_sq xr yr \<noteq> 0 \<longrightarrow> 0 < e \<and> 0 < s)) \<and>
         straight (map Fin [0, 1, 2, 3, 4, 5, 6, 7, 8, 9, 10])
           (map Fin [0, 0, 0, 0, 0, 0, 0, 0, 0, 0, 0]) = Inr (Fin 1) \<and>
         efficiency (map Fin [0, 1, 2, 3, 4, 5, 6, 7, 8, 9, 10])
           (map Fin [0, 0, 0, 0, 0, 0, 0, 0, 0, 0, 0]) = Inr (Fin 10)"
  using exact_path_ranges [OF len mv] by blast

text \<open>
  C5 as stated fails for \<open>efficiency\<close>: on the straight line from \<open>(0,0)\<close> to \<open>(10,0)\<close>
  over 11 equally spaced frames it returns 10, not 1, and so a value outside \<open>(0, 1]\<close>.
\<close>

theorem efficiency_line_counterexample:
  "efficiency [Fin 0, Fin 1, Fin 2, Fin 3, Fin 4, Fin 5, Fin 6, Fin 7, Fin 8, Fin 9, Fin 10]
     [Fin 0, Fin 0, Fin 0, Fin 0, Fin 0, Fin 0, Fin 0, Fin 0, Fin 0, Fin 0, Fin 0]
     = Inr (Fin 10)"
  by code_simp

theorem efficiency_straight_positive_witness:
  "\<exists>e s. efficiency (map Fin [0, 3, 3]) (map Fin [0, 0, 4]) = Inr (Fin e) \<and>
          straight (map Fin [0, 3, 3]) (map Fin [0, 0, 4]) = Inr (Fin s) \<and>
          0 < e \<and> 0 < s"
proof -
  have l: "length [0, 3, 3 :: real] = length [0, 0, 4 :: real]" by simp
  have m: "sum_list (step_sq [0, 3, 3] [0, 0, 4]) \<noteq> 0"
    by (simp add: step_sq_def rdiff_def)
  have n: "net_sq [0, 3, 3] [0, 0, 4] \<noteq> 0" by (simp add: net_sq_def)
  from efficiency_straight_positive [OF l m] n show ?thesis by auto
qed

text \<open>
  C9 (amended).  For a trajectory with finite coordinates and at least 2 frames whose
  total step displacement is zero, \<open>efficiency\<close> and \<open>straight\<close> raise no error: both
  divide zero by zero and return not-a-number.
\<close>

theorem degenerate_path_returns_nan:
  assumes len: "length xr = length yr" and two: "2 \<le> length xr"
    and still: "sum_list (step_sq xr yr) = 0"
  shows "efficiency (map Fin xr) (map Fin yr) = Inr NaN \<and>
         straight (map Fin xr) (map Fin yr) = Inr NaN"
proof -
  have ne: "xr \<noteq> []" using two by auto
  have "net_sq xr yr \<le> real (length xr - 1) * sum_list (step_sq xr yr)"
    by (rule net_le_steps [OF len ne])
  with still net_sq_nonneg [of xr yr] have N: "net_sq xr yr = 0" by simp
  have T: "sum_list (map sqrt (step_sq xr yr)) = 0"
    using still sum_sqrt_steps_zero_iff [of xr yr] by simp
  show ?thesis
    by (simp add: efficiency_finite [OF len ne] straight_finite [OF len ne] N T still)
qed

theorem degenerate_path_returns_nan_witness:
  "efficiency (map Fin [2, 2, 2]) (map Fin [7, 7, 7]) = Inr NaN \<and>
   straight (map Fin [2, 2, 2]) (map Fin [7, 7, 7]) = Inr NaN"
proof -
  have l: "length [2, 2, 2 :: real] = length [7, 7, 7 :: real]"
    and t: "2 \<le> length [2, 2, 2 :: real]" by simp_all
  have m: "sum_list (step_sq [2, 2, 2] [7, 7, 7]) = 0"
    by (simp add: step_sq_def rdiff_def)
  from degenerate_path_returns_nan [OF l t m] show ?thesis .
qed

text \<open>
  C9 as stated fails: for the stationary two-frame trajectory \<open>(3,1), (3,1)\<close> neither
  function raises; each returns the float not-a-number.
\<close>

theorem stationary_path_counterexample:
  "efficiency [Fin 3, Fin 3] [Fin 1, Fin 1] = Inr NaN \<and>
   straight [Fin 3, Fin 3] [Fin 1, Fin 1] = Inr NaN"
  by (simp add: efficiency_def straight_def getitem_def py_index_def ew1_def bshape_def
      broadcast1_def np_diff_def np_sub_def np_sq_def np_sum_def Let_def)

subsection \<open>Vectorised batch functions, column by column\<close>


















lemma row_last_col:
  "wf_arr2 A \<Longrightarrow> rows A \<noteq> [] \<Longrightarrow> last (rows A) ! i = last (col A i)"
  by (simp add: col_def last_map)

lemma row_hd_col:
  "rows A \<noteq> [] \<Longrightarrow> hd (rows A) ! i = hd (col A i)"
  by (simp add: col_def hd_map)

















subsection \<open>Asymmetry and kurtosis\<close>

lemma all_fin_map: "list_all is_fin ps \<Longrightarrow> ps = map Fin (map the_fin ps)"
  by (induction ps) (auto simp: is_fin_def split: npfloat.splits)

lemma np_pow4_Fin: "np_pow4 (Fin a) = Fin (a * a * (a * a))"
  by (simp add: np_pow4_def np_sq_def)

lemma np_sum_NaN: "ps \<noteq> [] \<Longrightarrow> \<forall>p\<in>set ps. p = NaN \<Longrightarrow> np_sum ps = NaN"
proof -
  have "foldl np_add a ps = NaN" if "ps \<noteq> []" "\<forall>p\<in>set ps. p = NaN" for a
    using that
  proof (induction ps arbitrary: a)
    case Nil
    then show ?case by simp
  next
    case (Cons p ps)
    have "np_add a NaN = NaN" by (cases a) simp_all
    moreover have "foldl np_add NaN ps = NaN" by (induction ps) simp_all
    ultimately show ?case using Cons.prems by simp
  qed
  then show "ps \<noteq> [] \<Longrightarrow> \<forall>p\<in>set ps. p = NaN \<Longrightarrow> np_sum ps = NaN"
    by (simp add: np_sum_def)
qed

lemma np_mean_Fin: "zs \<noteq> [] \<Longrightarrow> np_mean (map Fin zs) = Fin (sum_list zs / real (length zs))"
  by (simp add: np_mean_def np_sum_Fin)

lemma kurtosis_is_moment4:
  assumes fin: "list_all is_fin ps"
  shows "np_div (np_sum (map (\<lambda>p. np_div (np_pow4 (np_sub p (np_mean ps)))
                                         (np_pow4 (np_std ps))) ps))
                (Fin (real (length ps)))
           = moment4 ps"
proof (cases "ps = []")
  case True
  then show ?thesis by (simp add: moment4_def np_sum_def np_mean_def)
next
  case False
  define rs where "rs = map the_fin ps"
  have ps: "ps = map Fin rs" unfolding rs_def by (rule all_fin_map [OF fin])
  have ne: "rs \<noteq> []" using False ps by auto
  define n where "n = real (length rs)"
  have npos: "0 < n" using ne by (simp add: n_def)
  define mu where "mu = sum_list rs / n"
  have mean: "np_mean ps = Fin mu"
    unfolding ps np_mean_Fin [OF ne] mu_def n_def ..
  define var where "var = sum_list (map (\<lambda>r. (r - mu) * (r - mu)) rs) / n"
  have var0: "0 \<le> var"
    unfolding var_def using npos by (intro divide_nonneg_pos sum_list_nonneg) auto
  have sqd: "map (\<lambda>v. np_sq (np_sub v (Fin mu))) ps
      = map Fin (map (\<lambda>r. (r - mu) * (r - mu)) rs)"
    by (simp add: ps np_sq_def np_sub_def)
  have ne2: "map (\<lambda>r. (r - mu) * (r - mu)) rs \<noteq> []" using ne by simp
  have "np_std ps = np_sqrt (Fin var)"
    unfolding np_std_def mean sqd np_mean_Fin [OF ne2] var_def n_def by simp
  then have std: "np_std ps = Fin (sqrt var)" using var0 by simp
  define c where "c = var * var"
  have c: "np_pow4 (np_std ps) = Fin c"
    using var0 by (simp add: std np_pow4_Fin c_def)
  define a where "a = (\<lambda>r. (r - mu) * (r - mu) * ((r - mu) * (r - mu)))"
  have dev: "map (\<lambda>p. np_pow4 (np_sub p (Fin mu))) ps = map Fin (map a rs)"
    by (simp add: ps np_pow4_Fin np_sub_def a_def)
  have ne3: "map a rs \<noteq> []" using ne by simp
  have rhs: "moment4 ps = np_div (Fin (sum_list (map a rs) / n)) (Fin c)"
    unfolding moment4_def mean c dev np_mean_Fin [OF ne3] n_def by simp
  show ?thesis
  proof (cases "c = 0")
    case cz: True
    then have "var = 0" by (simp add: c_def)
    then have "sum_list (map (\<lambda>r. (r - mu) * (r - mu)) rs) = 0"
      using npos by (simp add: var_def)
    then have "\<forall>v\<in>set (map (\<lambda>r. (r - mu) * (r - mu)) rs). v = 0"
      by (subst sum_list_nonneg_eq_0_iff [symmetric]) auto
    then have z: "a r = 0" if "r \<in> set rs" for r using that by (auto simp: a_def)
    have terms: "\<forall>p\<in>set (map (\<lambda>p. np_div (np_pow4 (np_sub p (Fin mu))) (Fin c)) ps). p = NaN"
      using z cz by (auto simp: ps np_pow4_Fin np_sub_def a_def)
    have "np_sum (map (\<lambda>p. np_div (np_pow4 (np_sub p (Fin mu))) (Fin c)) ps) = NaN"
      by (rule np_sum_NaN [OF _ terms]) (use False in simp)
    moreover have "sum_list (map a rs) = 0"
    proof -
      have "map a rs = map (\<lambda>_. 0) rs" using z by simp
      then show ?thesis by (simp only: sum_list_0)
    qed
    ultimately show ?thesis unfolding rhs mean c using cz by simp
  next
    case cn: False
    have "map (\<lambda>p. np_div (np_pow4 (np_sub p (Fin mu))) (Fin c)) ps
        = map Fin (map (\<lambda>r. a r / c) rs)"
      using cn by (simp add: ps np_pow4_Fin np_sub_def a_def)
    then have "np_sum (map (\<lambda>p. np_div (np_pow4 (np_sub p (Fin mu))) (Fin c)) ps)
        = Fin (sum_list (map (\<lambda>r. a r / c) rs))"
      by (simp only: np_sum_Fin)
    moreover have "sum_list (map (\<lambda>r. a r / c) rs) = sum_list (map a rs) / c"
      by (induction rs) (simp_all add: add_divide_distrib)
    ultimately show ?thesis
      unfolding rhs mean c using cn npos by (simp add: ps n_def)
  qed
qed

lemma rvar_nonneg: "0 \<le> rvar rs"
  unfolding rvar_def rmean_def by (intro divide_nonneg_nonneg sum_list_nonneg) auto

lemma moment4_Fin:
  assumes ne: "rs \<noteq> []"
  shows "moment4 (map Fin rs) = np_div (Fin (rm4 rs)) (Fin (rvar rs * rvar rs))"
proof -
  have mean: "np_mean (map Fin rs) = Fin (rmean rs)"
    unfolding np_mean_Fin [OF ne] rmean_def ..
  have sqd: "map (\<lambda>v. np_sq (np_sub v (Fin (rmean rs)))) (map Fin rs)
      = map Fin (map (\<lambda>r. (r - rmean rs) * (r - rmean rs)) rs)"
    by (simp add: np_sq_def np_sub_def)
  have ne2: "map (\<lambda>r. (r - rmean rs) * (r - rmean rs)) rs \<noteq> []" using ne by simp
  have "np_std (map Fin rs) = np_sqrt (Fin (rvar rs))"
    unfolding np_std_def mean sqd np_mean_Fin [OF ne2] by (simp add: rvar_def rmean_def)
  then have std: "np_std (map Fin rs) = Fin (sqrt (rvar rs))"
    using rvar_nonneg [of rs] by simp
  have c: "np_pow4 (np_std (map Fin rs)) = Fin (rvar rs * rvar rs)"
    using rvar_nonneg [of rs] by (simp add: std np_pow4_Fin)
  have dev: "map (\<lambda>p. np_pow4 (np_sub p (Fin (rmean rs)))) (map Fin rs)
      = map Fin (map (\<lambda>r. (r - rmean rs) * (r - rmean rs) * ((r - rmean rs) * (r - rmean rs))) rs)"
    by (simp add: np_pow4_Fin np_sub_def)
  have ne3: "map (\<lambda>r. (r - rmean rs) * (r - rmean rs) * ((r - rmean rs) * (r - rmean rs))) rs \<noteq> []"
    using ne by simp
  show ?thesis
    unfolding moment4_def mean c dev np_mean_Fin [OF ne3] by (simp add: rm4_def rmean_def)
qed

lemma asym_returns:
  assumes C: "cov x y = Inr C" and E: "eig C = Inr (eigs, vecs)"
  shows "asym eig x y =
     Inr ((np_div (np_sq (np_sub (np_sq (fst eigs)) (np_sq (snd eigs))))
                  (np_sq (np_add (np_sq (fst eigs)) (np_sq (snd eigs)))),
           np_div (py_min2 (fst eigs) (snd eigs)) (py_max2 (fst eigs) (snd eigs)),
           np_neg (np_log (np_sub (Fin 1)
                  (np_div (np_mul (Fin (1 / 2)) (np_sq (np_sub (fst eigs) (snd eigs))))
                          (np_sq (np_add (fst eigs) (snd eigs))))))),
          eigs, vecs,
          np_div (np_sum (map (\<lambda>p. np_div (np_pow4 (np_sub p (np_mean (project x y (col0 vecs)))))
                                      (np_pow4 (np_std (project x y (col0 vecs)))))
                            (project x y (col0 vecs))))
                 (Fin (real (length (project x y (col0 vecs))))))"
proof -
  have "length x = length y" using C by (auto simp: cov_def split: if_splits)
  then have "length (project x y (col0 vecs)) = length x" by (simp add: project_def)
  then show ?thesis
    by (simp add: asym_def C E Let_def project_def)
qed

lemma asym_K:
  assumes C: "cov x y = Inr C" and E: "eig C = Inr (eigs, vecs)"
    and fin: "list_all is_fin (project x y (col0 vecs))"
  shows "map_sum id (\<lambda>r. snd (snd (snd r))) (asym eig x y)
           = Inr (moment4 (project x y (col0 vecs)))"
  by (simp add: asym_returns [where eig = eig, OF C E] kurtosis_is_moment4 [OF fin])

text \<open>
  C7 (amended).  When the eigen-decomposition reports two exactly equal finite
  eigenvalues \<open>l\<close>, \<open>asym\<close> raises nothing.  For \<open>l \<noteq> 0\<close> the denominator of asymmetry-3 is
  \<open>(2l)\<^sup>2\<close>, not zero, and the three asymmetries are exactly 0, 1 and 0; for \<open>l = 0\<close> every
  one of them is the quotient \<open>0/0\<close>, and not-a-number is returned without any guard.
\<close>

theorem asym_equal_eigenvalues_unguarded:
  assumes C: "cov x y = Inr C" and E: "eig C = Inr ((Fin l, Fin l), vecs)"
  shows "\<exists>K. asym eig x y =
           Inr ((if l = 0 then (NaN, NaN, NaN) else (Fin 0, Fin 1, Fin 0)),
                (Fin l, Fin l), vecs, K)"
  unfolding asym_returns [where eig = eig, OF C E]
  by (simp add: np_sq_def np_sub_def py_min2_def py_max2_def np_greater_def)

theorem asym_equal_eigenvalues_unguarded_witness:
  "(\<exists>K. asym eig_diag [Fin 1, Fin 0, Fin (- 1), Fin 0] [Fin 0, Fin 1, Fin 0, Fin (- 1)]
      = Inr ((Fin 0, Fin 1, Fin 0), (Fin (2 / 3), Fin (2 / 3)),
             ((Fin 1, Fin 0), (Fin 0, Fin 1)), K)) \<and>
   (\<exists>K. asym eig_diag [Fin 1, Fin 1] [Fin 0, Fin 0]
      = Inr ((NaN, NaN, NaN), (Fin 0, Fin 0), ((Fin 1, Fin 0), (Fin 0, Fin 1)), K))"
proof -
  have c1: "cov [Fin 1, Fin 0, Fin (- 1), Fin 0] [Fin 0, Fin 1, Fin 0, Fin (- 1)]
      = Inr ((Fin (2 / 3), Fin 0), (Fin 0, Fin (2 / 3)))"
    by code_simp
  have e1: "eig_diag ((Fin (2 / 3), Fin 0), (Fin 0, Fin (2 / 3)))
      = Inr ((Fin (2 / 3), Fin (2 / 3)), ((Fin 1, Fin 0), (Fin 0, Fin 1)))"
    by (simp add: eig_diag_def)
  have c2: "cov [Fin 1, Fin 1] [Fin 0, Fin 0] = Inr ((Fin 0, Fin 0), (Fin 0, Fin 0))"
    by code_simp
  have e2: "eig_diag ((Fin 0, Fin 0), (Fin 0, Fin 0))
      = Inr ((Fin 0, Fin 0), ((Fin 1, Fin 0), (Fin 0, Fin 1)))"
    by (simp add: eig_diag_def)
  from asym_equal_eigenvalues_unguarded [where eig = eig_diag, OF c1 e1]
    asym_equal_eigenvalues_unguarded [where eig = eig_diag, OF c2 e2]
  show ?thesis by simp
qed

text \<open>
  C7 as stated fails.  The four points \<open>(1,0), (0,1), (-1,0), (0,-1)\<close> have the covariance
  matrix \<open>2/3\<close> times the identity, so both eigenvalues are \<open>2/3\<close>; \<open>asym\<close> returns the
  asymmetries 0, 1, 0 and no error.  The two-frame stationary trajectory \<open>(1,0), (1,0)\<close>
  has both eigenvalues 0, and \<open>asym\<close> returns not-a-number for each asymmetry, again
  without an error.
\<close>

theorem asym_equal_eigenvalues_counterexample:
  "map_sum id (\<lambda>r. (fst r, fst (snd r)))
     (asym eig_diag [Fin 1, Fin 0, Fin (- 1), Fin 0] [Fin 0, Fin 1, Fin 0, Fin (- 1)])
     = Inr ((Fin 0, Fin 1, Fin 0), (Fin (2 / 3), Fin (2 / 3))) \<and>
   map_sum id (\<lambda>r. (fst r, fst (snd r))) (asym eig_diag [Fin 1, Fin 1] [Fin 0, Fin 0])
     = Inr ((NaN, NaN, NaN), (Fin 0, Fin 0))"
proof -
  have c1: "cov [Fin 1, Fin 0, Fin (- 1), Fin 0] [Fin 0, Fin 1, Fin 0, Fin (- 1)]
      = Inr ((Fin (2 / 3), Fin 0), (Fin 0, Fin (2 / 3)))"
    by code_simp
  have e1: "eig_diag ((Fin (2 / 3), Fin 0), (Fin 0, Fin (2 / 3)))
      = Inr ((Fin (2 / 3), Fin (2 / 3)), ((Fin 1, Fin 0), (Fin 0, Fin 1)))"
    by (simp add: eig_diag_def)
  have c2: "cov [Fin 1, Fin 1] [Fin 0, Fin 0] = Inr ((Fin 0, Fin 0), (Fin 0, Fin 0))"
    by code_simp
  have e2: "eig_diag ((Fin 0, Fin 0), (Fin 0, Fin 0))
      = Inr ((Fin 0, Fin 0), ((Fin 1, Fin 0), (Fin 0, Fin 1)))"
    by (simp add: eig_diag_def)
  show ?thesis
    unfolding asym_returns [where eig = eig_diag, OF c1 e1]
      asym_returns [where eig = eig_diag, OF c2 e2]
    by (simp add: np_sq_def np_sub_def py_min2_def py_max2_def np_greater_def)
qed

text \<open>
  C8 (amended).  The kurtosis \<open>K\<close> returned by \<open>asym\<close> is the 4th standardized moment of
  the projection of the points onto column 0 of the eigenvector matrix, the eigenvector
  of \<open>eigs[0]\<close>; this is the dominant eigenvector when the decomposition does not return
  the smaller eigenvalue first.
\<close>

theorem asym_kurtosis_first_eigenvector:
  assumes C: "cov x y = Inr C" and E: "eig C = Inr (eigs, vecs)"
    and fin: "list_all is_fin (project x y (col0 vecs))"
  shows "\<exists>a K. asym eig x y = Inr (a, eigs, vecs, K) \<and>
           K = moment4 (project x y (col0 vecs)) \<and>
           (\<not> np_less (fst eigs) (snd eigs) \<longrightarrow>
              K = moment4 (project x y (dominant eigs vecs)))"
  using asym_K [where eig = eig, OF C E fin]
  by (auto simp: asym_returns [where eig = eig, OF C E] dominant_def)

lemma example_cov:
  "cov [Fin (- 1), Fin 1, Fin 0, Fin 0, Fin 0, Fin 0] [Fin 0, Fin 0, Fin (- 2), Fin 2, Fin (- 2), Fin 2]
     = Inr ((Fin (2 / 5), Fin 0), (Fin 0, Fin (16 / 5)))"
  "cov [Fin 0, Fin 0, Fin (- 2), Fin 2, Fin (- 2), Fin 2] [Fin (- 1), Fin 1, Fin 0, Fin 0, Fin 0, Fin 0]
     = Inr ((Fin (16 / 5), Fin 0), (Fin 0, Fin (2 / 5)))"
  by code_simp+

lemma example_eig:
  "eig_diag ((Fin (2 / 5), Fin 0), (Fin 0, Fin (16 / 5)))
     = Inr ((Fin (2 / 5), Fin (16 / 5)), ((Fin 1, Fin 0), (Fin 0, Fin 1)))"
  "eig_diag ((Fin (16 / 5), Fin 0), (Fin 0, Fin (2 / 5)))
     = Inr ((Fin (16 / 5), Fin (2 / 5)), ((Fin 1, Fin 0), (Fin 0, Fin 1)))"
  by (simp_all add: eig_diag_def)

lemma example_projections:
  "project [Fin (- 1), Fin 1, Fin 0, Fin 0, Fin 0, Fin 0]
     [Fin 0, Fin 0, Fin (- 2), Fin 2, Fin (- 2), Fin 2] (Fin 1, Fin 0)
     = map Fin [- 1, 1, 0, 0, 0, 0]"
  "project [Fin (- 1), Fin 1, Fin 0, Fin 0, Fin 0, Fin 0]
     [Fin 0, Fin 0, Fin (- 2), Fin 2, Fin (- 2), Fin 2] (Fin 0, Fin 1)
     = map Fin [0, 0, - 2, 2, - 2, 2]"
  "project [Fin 0, Fin 0, Fin (- 2), Fin 2, Fin (- 2), Fin 2]
     [Fin (- 1), Fin 1, Fin 0, Fin 0, Fin 0, Fin 0] (Fin 1, Fin 0)
     = map Fin [0, 0, - 2, 2, - 2, 2]"
  by (simp_all add: project_def)

lemma example_moments:
  "moment4 (map Fin [- 1, 1, 0, 0, 0, 0]) = Fin 3"
  "moment4 (map Fin [0, 0, - 2, 2, - 2, 2]) = Fin (3 / 2)"
  by (subst moment4_Fin, simp, simp add: rm4_def rvar_def rmean_def)+

theorem asym_kurtosis_first_eigenvector_witness:
  "\<exists>a K. asym eig_diag [Fin 0, Fin 0, Fin (- 2), Fin 2, Fin (- 2), Fin 2]
            [Fin (- 1), Fin 1, Fin 0, Fin 0, Fin 0, Fin 0]
          = Inr (a, (Fin (16 / 5), Fin (2 / 5)), ((Fin 1, Fin 0), (Fin 0, Fin 1)), K) \<and>
        K = Fin (3 / 2)"
proof -
  have fin: "list_all is_fin (project [Fin 0, Fin 0, Fin (- 2), Fin 2, Fin (- 2), Fin 2]
      [Fin (- 1), Fin 1, Fin 0, Fin 0, Fin 0, Fin 0] (col0 ((Fin 1, Fin 0), (Fin 0, Fin 1))))"
    by (simp add: project_def col0_def is_fin_def)
  from asym_kurtosis_first_eigenvector
    [where eig = eig_diag, OF example_cov(2) example_eig(2) fin]
  show ?thesis
    using example_projections(3) example_moments(2) by (auto simp: col0_def)
qed

text \<open>
  C8 as stated fails.  The six points \<open>(-1,0), (1,0), (0,-2), (0,2), (0,-2), (0,2)\<close> have the
  diagonal covariance matrix with entries \<open>2/5\<close> and \<open>16/5\<close>.  A decomposition that returns
  the eigenvalues in this order, with the unit vectors, has its dominant eigenvector in
  column 1; \<open>asym\<close> projects onto column 0 and returns \<open>K = 3\<close>, while the 4th standardized
  moment of the projection onto the dominant eigenvector is \<open>3/2\<close>.
\<close>

theorem asym_kurtosis_counterexample:
  "map_sum id (\<lambda>r. (fst (snd r), snd (snd (snd r))))
     (asym eig_diag [Fin (- 1), Fin 1, Fin 0, Fin 0, Fin 0, Fin 0]
        [Fin 0, Fin 0, Fin (- 2), Fin 2, Fin (- 2), Fin 2])
     = Inr ((Fin (2 / 5), Fin (16 / 5)), Fin 3) \<and>
   dominant (Fin (2 / 5), Fin (16 / 5)) ((Fin 1, Fin 0), (Fin 0, Fin 1)) = (Fin 0, Fin 1) \<and>
   moment4 (project [Fin (- 1), Fin 1, Fin 0, Fin 0, Fin 0, Fin 0]
        [Fin 0, Fin 0, Fin (- 2), Fin 2, Fin (- 2), Fin 2] (Fin 0, Fin 1))
     = Fin (3 / 2)"
proof -
  have fin: "list_all is_fin (project [Fin (- 1), Fin 1, Fin 0, Fin 0, Fin 0, Fin 0]
      [Fin 0, Fin 0, Fin (- 2), Fin 2, Fin (- 2), Fin 2] (col0 ((Fin 1, Fin 0), (Fin 0, Fin 1))))"
    by (simp add: project_def col0_def is_fin_def)
  have K: "map_sum id (\<lambda>r. snd (snd (snd r)))
     (asym eig_diag [Fin (- 1), Fin 1, Fin 0, Fin 0, Fin 0, Fin 0]
        [Fin 0, Fin 0, Fin (- 2), Fin 2, Fin (- 2), Fin 2]) = Inr (Fin 3)"
    using asym_K [where eig = eig_diag, OF example_cov(1) example_eig(1) fin]
      example_projections(1) example_moments(1) by (simp add: col0_def)
  have d: "dominant (Fin (2 / 5), Fin (16 / 5)) ((Fin 1, Fin 0), (Fin 0, Fin 1)) = (Fin 0, Fin 1)"
    by (simp add: dominant_def col1_def)
  show ?thesis
    using K d example_projections(2) example_moments(2)
    by (simp add: asym_returns [where eig = eig_diag, OF example_cov(1) example_eig(1)])
qed

end
